theory Spec2Isabelle
  imports Complex_Main "HOL-Library.Char_ord" "HOL-Library.List_Lexorder"
begin

section \<open>Values of the host language\<close>

text \<open>
  The engine of \<^verbatim>\<open>src/semanticEngine.ts\<close> is dynamically typed at run time: a row
  is \<^verbatim>\<open>Record<string, any>\<close>, a filter context maps names to primitives or range
  objects, and the code guards explicitly against \<^verbatim>\<open>null\<close> and \<^verbatim>\<open>undefined\<close>.
  The embedding keeps that: numbers are exact rationals or \<^verbatim>\<open>NaN\<close> (rounding, the
  infinities and the negative zero of doubles are left out), cells are the primitive
  values, and an object is the list of its own properties in insertion order.
\<close>

datatype number = Num rat | NaN

datatype jsval = JUndefined | JNull | JBool bool | JNum number | JStr string

type_synonym 'v obj = "(string \<times> 'v) list"

type_synonym Row = "jsval obj"

text \<open>
  What the built-in conversions between strings and numbers compute is not part of the
  repository. They are parameters of the model: \<^verbatim>\<open>Number(s)\<close> on a string,
  \<^verbatim>\<open>String(n)\<close> on a finite number (also the text \<^verbatim>\<open>JSON.stringify\<close> writes for
  it), and \<^verbatim>\<open>n.toFixed(d)\<close>.
\<close>

record host =
  StringToNumber :: "string \<Rightarrow> number"
  NumberToString :: "rat \<Rightarrow> string"
  toFixed :: "rat \<Rightarrow> nat \<Rightarrow> string"

text \<open>
  \<^verbatim>\<open>o[k]\<close> on a row, a range or a context: the property, \<^verbatim>\<open>undefined\<close> when the
  object has none of that name. (The names of columns, dimensions, filters and transforms
  are taken not to be those of the members every object inherits, such as
  \<^verbatim>\<open>constructor\<close> or \<^verbatim>\<open>toString\<close>, which such a read would find. Where the engine
  tests what a read of a registry found, under the name of a metric, a fact table, a
  measure or a dimension table, those names are modelled: see \<open>registry_get\<close> below.)
\<close>

definition get :: "Row \<Rightarrow> string \<Rightarrow> jsval" where
  "get r k = (case map_of r k of None \<Rightarrow> JUndefined | Some v \<Rightarrow> v)"

text \<open>\<^verbatim>\<open>k in o\<close>.\<close>

definition has_key :: "string \<Rightarrow> 'v obj \<Rightarrow> bool" where
  "has_key k ob = (k \<in> set (map fst ob))"

text \<open>
  \<^verbatim>\<open>o[k] = v\<close>: an existing property keeps its place, a new one goes last.
\<close>

fun assign :: "string \<Rightarrow> 'v \<Rightarrow> 'v obj \<Rightarrow> 'v obj" where
  "assign k v [] = [(k, v)]"
| "assign k v ((k', v') # ps) = (if k' = k then (k, v) # ps else (k', v') # assign k v ps)"

text \<open>\<^verbatim>\<open>{...a, ...b}\<close>: the properties of \<open>b\<close> are assigned onto a copy of \<open>a\<close>.\<close>

definition spread :: "'v obj \<Rightarrow> 'v obj \<Rightarrow> 'v obj" where
  "spread a b = foldl (\<lambda>acc (k, v). assign k v acc) a b"

text \<open>\<^verbatim>\<open>v == null\<close>: true of \<^verbatim>\<open>null\<close> and \<^verbatim>\<open>undefined\<close> only.\<close>

fun nullish :: "jsval \<Rightarrow> bool" where
  "nullish JUndefined = True"
| "nullish JNull = True"
| "nullish _ = False"

text \<open>\<^verbatim>\<open>Number(v)\<close> on a primitive.\<close>

fun ToNumber :: "host \<Rightarrow> jsval \<Rightarrow> number" where
  "ToNumber H JUndefined = NaN"
| "ToNumber H JNull = Num 0"
| "ToNumber H (JBool b) = (if b then Num 1 else Num 0)"
| "ToNumber H (JNum n) = n"
| "ToNumber H (JStr s) = StringToNumber H s"

text \<open>
  The relational operators on primitives: two strings compare by code units, anything
  else is converted to numbers, and a comparison with \<^verbatim>\<open>NaN\<close> is false whichever
  operator is used.
\<close>

fun number_lt :: "number \<Rightarrow> number \<Rightarrow> bool" where
  "number_lt (Num a) (Num b) = (a < b)"
| "number_lt _ _ = False"

fun number_le :: "number \<Rightarrow> number \<Rightarrow> bool" where
  "number_le (Num a) (Num b) = (a \<le> b)"
| "number_le _ _ = False"

fun js_lt :: "host \<Rightarrow> jsval \<Rightarrow> jsval \<Rightarrow> bool" where
  "js_lt H (JStr a) (JStr b) = (a < b)"
| "js_lt H x y = number_lt (ToNumber H x) (ToNumber H y)"

fun js_le :: "host \<Rightarrow> jsval \<Rightarrow> jsval \<Rightarrow> bool" where
  "js_le H (JStr a) (JStr b) = (a \<le> b)"
| "js_le H x y = number_le (ToNumber H x) (ToNumber H y)"

definition js_gt :: "host \<Rightarrow> jsval \<Rightarrow> jsval \<Rightarrow> bool" where
  "js_gt H x y = js_lt H y x"

definition js_ge :: "host \<Rightarrow> jsval \<Rightarrow> jsval \<Rightarrow> bool" where
  "js_ge H x y = js_le H y x"

text \<open>\<^verbatim>\<open>x === y\<close> on primitives: same type and same value, and \<^verbatim>\<open>NaN\<close> equals nothing.\<close>

fun strict_eq :: "jsval \<Rightarrow> jsval \<Rightarrow> bool" where
  "strict_eq (JNum NaN) _ = False"
| "strict_eq _ (JNum NaN) = False"
| "strict_eq x y = (x = y)"

text \<open>\<^verbatim>\<open>a + b\<close> on numbers.\<close>

fun number_add :: "number \<Rightarrow> number \<Rightarrow> number" where
  "number_add (Num a) (Num b) = Num (a + b)"
| "number_add _ _ = NaN"

text \<open>\<^verbatim>\<open>s / n\<close> for a sum and a count: \<^verbatim>\<open>0 / 0\<close> is \<^verbatim>\<open>NaN\<close>.\<close>

fun number_div_count :: "number \<Rightarrow> nat \<Rightarrow> number" where
  "number_div_count (Num a) n = (if n = 0 then NaN else Num (a / of_nat n))"
| "number_div_count NaN n = NaN"

section \<open>JSON text\<close>

text \<open>
  \<^verbatim>\<open>JSON.stringify\<close> writes the properties of an object in their insertion order,
  leaves out a property whose value is \<^verbatim>\<open>undefined\<close> or a function, and writes
  \<^verbatim>\<open>NaN\<close> as \<^verbatim>\<open>null\<close>. (Property names that are array indices, which the host
  enumerates first, are not modelled: dimension names are not such.)
\<close>

definition hex_digit :: "nat \<Rightarrow> char" where
  "hex_digit n = (''0123456789abcdef'' ! (n mod 16))"

definition escape_char :: "char \<Rightarrow> string" where
  "escape_char c =
     (if c = CHR 0x22 then [CHR 0x5C, CHR 0x22]
      else if c = CHR 0x5C then [CHR 0x5C, CHR 0x5C]
      else if c = CHR 0x08 then [CHR 0x5C, CHR ''b'']
      else if c = CHR 0x09 then [CHR 0x5C, CHR ''t'']
      else if c = CHR 0x0A then [CHR 0x5C, CHR ''n'']
      else if c = CHR 0x0C then [CHR 0x5C, CHR ''f'']
      else if c = CHR 0x0D then [CHR 0x5C, CHR ''r'']
      else if (of_char c :: nat) < 32
        then [CHR 0x5C, CHR ''u'', CHR ''0'', CHR ''0'',
              hex_digit (of_char c div 16), hex_digit (of_char c)]
      else [c])"

definition QuoteJSONString :: "string \<Rightarrow> string" where
  "QuoteJSONString s = [CHR 0x22] @ concat (map escape_char s) @ [CHR 0x22]"

fun JSON_primitive :: "host \<Rightarrow> jsval \<Rightarrow> string option" where
  "JSON_primitive H JUndefined = None"
| "JSON_primitive H JNull = Some ''null''"
| "JSON_primitive H (JBool b) = Some (if b then ''true'' else ''false'')"
| "JSON_primitive H (JNum (Num r)) = Some (NumberToString H r)"
| "JSON_primitive H (JNum NaN) = Some ''null''"
| "JSON_primitive H (JStr s) = Some (QuoteJSONString s)"

fun join_with :: "string \<Rightarrow> string list \<Rightarrow> string" where
  "join_with sep [] = []"
| "join_with sep [x] = x"
| "join_with sep (x # y # ys) = x @ sep @ join_with sep (y # ys)"

definition JSON_members :: "('v \<Rightarrow> string option) \<Rightarrow> 'v obj \<Rightarrow> string" where
  "JSON_members write ob =
     ''{'' @ join_with '',''
        (List.map_filter
           (\<lambda>(k, v). case write v of None \<Rightarrow> None
                      | Some s \<Rightarrow> Some (QuoteJSONString k @ '':'' @ s)) ob)
     @ ''}''"

definition JSON_stringify_row :: "host \<Rightarrow> Row \<Rightarrow> string" where
  "JSON_stringify_row H r = JSON_members (JSON_primitive H) r"

text \<open>
  \<^verbatim>\<open>JSON.parse(JSON.stringify(o))\<close> for a row \<open>o\<close>, computed on the object: the
  properties the text keeps, with \<^verbatim>\<open>NaN\<close> read back as \<^verbatim>\<open>null\<close>.
\<close>

fun JSON_reread :: "jsval \<Rightarrow> jsval" where
  "JSON_reread (JNum NaN) = JNull"
| "JSON_reread v = v"

definition JSON_parse_stringify :: "Row \<Rightarrow> Row" where
  "JSON_parse_stringify r =
     map (\<lambda>(k, v). (k, JSON_reread v)) (filter (\<lambda>(k, v). v \<noteq> JUndefined) r)"

section \<open>Filter contexts\<close>

text \<open>
  A filter value is a primitive (\<^verbatim>\<open>FilterPrimitive\<close>, and the \<^verbatim>\<open>null\<close> and
  \<^verbatim>\<open>undefined\<close> the code guards against), a range object (\<^verbatim>\<open>FilterRange\<close>: its own
  properties in order), or a function: \<^verbatim>\<open>runQuery\<close> hands the registry of
  transforms, whose values are functions, to the parameter \<^verbatim>\<open>context\<close>.
\<close>

datatype FilterValue = Prim jsval | Range "jsval obj" | Func

type_synonym FilterContext = "FilterValue obj"

fun JSON_filter :: "host \<Rightarrow> FilterValue \<Rightarrow> string option" where
  "JSON_filter H (Prim p) = JSON_primitive H p"
| "JSON_filter H (Range f) = Some (JSON_stringify_row H f)"
| "JSON_filter H Func = None"

definition JSON_stringify :: "host \<Rightarrow> FilterContext \<Rightarrow> string" where
  "JSON_stringify H c = JSON_members (JSON_filter H) c"

text \<open>
  \<^verbatim>\<open>matchesFilter(value, filter)\<close>. A range with a \<^verbatim>\<open>from\<close> or \<^verbatim>\<open>to\<close> property is
  decided by those two alone; otherwise by \<^verbatim>\<open>gte\<close>, \<^verbatim>\<open>lte\<close>, \<^verbatim>\<open>gt\<close>, \<^verbatim>\<open>lt\<close>.
  A function is not an \<^verbatim>\<open>"object"\<close> for \<^verbatim>\<open>typeof\<close> and no cell is a function,
  so the final \<^verbatim>\<open>===\<close> is false for it.
\<close>

fun matchesFilter :: "host \<Rightarrow> jsval \<Rightarrow> FilterValue \<Rightarrow> bool" where
  "matchesFilter H v (Range f) =
     (if has_key ''from'' f \<or> has_key ''to'' f then
        (if \<not> nullish (get f ''from'') \<and> js_lt H v (get f ''from'') then False
         else if \<not> nullish (get f ''to'') \<and> js_gt H v (get f ''to'') then False
         else True)
      else if \<not> nullish (get f ''gte'') \<and> js_lt H v (get f ''gte'') then False
      else if \<not> nullish (get f ''lte'') \<and> js_gt H v (get f ''lte'') then False
      else if \<not> nullish (get f ''gt'') \<and> js_le H v (get f ''gt'') then False
      else if \<not> nullish (get f ''lt'') \<and> js_ge H v (get f ''lt'') then False
      else True)"
| "matchesFilter H v (Prim p) = strict_eq v p"
| "matchesFilter H v Func = False"

section \<open>The row-set adapter\<close>

text \<open>
  Modelled from the spec: the sequence library behind \<^verbatim>\<open>Enumerable.from(rows)\<close> is an
  imported package with no source in the repository. A row set is the list of its rows;
  \<open>where\<close> keeps the rows that satisfy the predicate, in order; \<open>sum\<close> is the
  arithmetic sum of the selected values, starting from 0; \<open>average\<close> is that sum
  divided by the number of rows (\<^verbatim>\<open>NaN\<close> on the empty set); \<open>count\<close> is the number
  of rows; \<open>groupBy\<close> yields one group per distinct key, in the order in which the keys
  are first met, each with its key and its members in their order.
\<close>

definition linq_where :: "('a \<Rightarrow> bool) \<Rightarrow> 'a list \<Rightarrow> 'a list" where
  "linq_where p q = filter p q"

definition linq_sum :: "('a \<Rightarrow> number) \<Rightarrow> 'a list \<Rightarrow> number" where
  "linq_sum selector q = foldl (\<lambda>a x. number_add a (selector x)) (Num 0) q"

definition linq_average :: "('a \<Rightarrow> number) \<Rightarrow> 'a list \<Rightarrow> number" where
  "linq_average selector q = number_div_count (linq_sum selector q) (length q)"

definition linq_count :: "'a list \<Rightarrow> number" where
  "linq_count q = Num (of_nat (length q))"

fun add_to_group :: "string \<Rightarrow> 'a \<Rightarrow> (string \<times> 'a list) list \<Rightarrow> (string \<times> 'a list) list" where
  "add_to_group k x [] = [(k, [x])]"
| "add_to_group k x ((k', xs) # gs) =
     (if k' = k then (k', xs @ [x]) # gs else (k', xs) # add_to_group k x gs)"

definition linq_groupBy :: "('a \<Rightarrow> string) \<Rightarrow> 'a list \<Rightarrow> (string \<times> 'a list) list" where
  "linq_groupBy keySelector q = foldl (\<lambda>gs x. add_to_group (keySelector x) x gs) [] q"

section \<open>Helpers of the engine\<close>

text \<open>
  \<^verbatim>\<open>applyContextToFact(rows, context, grain)\<close>: one \<open>where\<close> per entry of the context
  whose filter is neither \<^verbatim>\<open>undefined\<close> nor \<^verbatim>\<open>null\<close> and whose key is in the grain.
\<close>

definition applyContextToFact :: "host \<Rightarrow> Row list \<Rightarrow> FilterContext \<Rightarrow> string list \<Rightarrow> Row list" where
  "applyContextToFact H rows context grain =
     foldl (\<lambda>q (key, filter).
              if filter = Prim JUndefined \<or> filter = Prim JNull then q
              else if key \<notin> set grain then q
              else linq_where (\<lambda>r. matchesFilter H (get r key) filter) q)
       rows context"

text \<open>\<^verbatim>\<open>pick(obj, keys)\<close>: the listed properties that are not \<^verbatim>\<open>undefined\<close>.\<close>

definition pick :: "Row \<Rightarrow> string list \<Rightarrow> Row" where
  "pick ob keys =
     foldl (\<lambda>out k. if get ob k \<noteq> JUndefined then assign k (get ob k) out else out) [] keys"

definition cacheKey :: "host \<Rightarrow> string \<Rightarrow> FilterContext \<Rightarrow> string" where
  "cacheKey H metricName context = metricName @ ''::'' @ JSON_stringify H context"

text \<open>
  \<^verbatim>\<open>formatValue(value, format)\<close>: a string, or \<^verbatim>\<open>null\<close> for \<^verbatim>\<open>null\<close> and \<^verbatim>\<open>NaN\<close>.
\<close>

definition formatValue :: "host \<Rightarrow> number option \<Rightarrow> string option \<Rightarrow> jsval" where
  "formatValue H val fmt =
     (case val of
        None \<Rightarrow> JNull
      | Some NaN \<Rightarrow> JNull
      | Some (Num n) \<Rightarrow>
          (if fmt = Some ''currency'' then JStr (''$'' @ toFixed H n 2)
           else if fmt = Some ''integer'' then JStr (toFixed H n 0)
           else if fmt = Some ''percent'' then JStr (toFixed H n 2 @ ''%'')
           else JStr (NumberToString H n)))"

section \<open>Registries and metric definitions\<close>

text \<open>
  A registry (\<^verbatim>\<open>Record<string, T>\<close>) is an object written as an object literal. A read
  \<^verbatim>\<open>registry[name]\<close> finds the registry's own property of that name, or else the
  member of that name that every such object inherits from \<^verbatim>\<open>Object.prototype\<close>, or
  else \<^verbatim>\<open>undefined\<close>. An inherited member is a built-in function (under
  \<^verbatim>\<open>__proto__\<close>, the prototype object): \<^verbatim>\<open>!x\<close> is false of it, and it has none of
  the properties the engine reads from an entry. A registry is modelled by the map of its
  own properties, read through \<open>registry_get\<close>. (No entry is registered under the name
  \<^verbatim>\<open>__proto__\<close> itself, which an assignment does not store as a property.)
\<close>

definition Object_prototype :: "string list" where
  "Object_prototype =
     [''constructor'', ''__defineGetter__'', ''__defineSetter__'', ''hasOwnProperty'',
      ''__lookupGetter__'', ''__lookupSetter__'', ''isPrototypeOf'', ''propertyIsEnumerable'',
      ''toString'', ''valueOf'', ''__proto__'', ''toLocaleString'']"

datatype 'a property = Own 'a | Inherited | Absent

definition registry_get :: "(string \<rightharpoonup> 'a) \<Rightarrow> string \<Rightarrow> 'a property" where
  "registry_get registry name =
     (case registry name of
        Some v \<Rightarrow> Own v
      | None \<Rightarrow> if name \<in> set Object_prototype then Inherited else Absent)"

text \<open>
  The guards \<^verbatim>\<open>if (!x) throw ...\<close> after a read: \<^verbatim>\<open>!x\<close> is true of \<^verbatim>\<open>undefined\<close>
  only, an entry being an object or an array.
\<close>

fun found :: "'a property \<Rightarrow> bool" where
  "found (Own v) = True"
| "found Inherited = True"
| "found Absent = False"

text \<open>
  \<^verbatim>\<open>Enumerable.from(rows)\<close> for what \<^verbatim>\<open>db.facts[name]\<close> found: the rows of the
  array. Of a value that is no array the adapter yields the enumerable properties (its
  documentation, \<^verbatim>\<open>operators.md\<close>: objects are exposed as key/value pairs); an
  inherited member has none, and the sequence made from it is empty.
\<close>

fun rowsOf :: "'a list property \<Rightarrow> 'a list" where
  "rowsOf (Own rs) = rs"
| "rowsOf Inherited = []"
| "rowsOf Absent = []"

record InMemoryDb =
  dimensions :: "string \<rightharpoonup> Row list"
  facts :: "string \<rightharpoonup> Row list"

text \<open>
  The aggregation tag is a string in the source; \<open>AggOther\<close> stands for any tag other
  than the three the evaluator knows.
\<close>

datatype Agg = AggSum | AggAvg | AggCount | AggOther string

record FactMeasureDefinition =
  column :: string
  defaultAgg :: Agg

record FactTableDefinition =
  grain :: "string list"
  measures :: "string \<rightharpoonup> FactMeasureDefinition"

type_synonym FactTableRegistry = "string \<rightharpoonup> FactTableDefinition"

text \<open>
  The four kinds of metric, with the fields the evaluator reads, in the order
  \<^verbatim>\<open>factTable, factColumn, agg?, grain?\<close>; \<^verbatim>\<open>factTable, grain?, expression\<close>;
  \<^verbatim>\<open>dependencies, evalFromDeps\<close>; \<^verbatim>\<open>baseMeasure, transform\<close>. The caller-supplied
  functions are pure functions of their arguments; the sequence an expression receives is
  the list of the filtered rows.
\<close>

datatype MetricKind =
    FactMeasure string string "Agg option" "string list option"
  | Expression string "string list option"
      "Row list \<Rightarrow> InMemoryDb \<Rightarrow> FilterContext \<Rightarrow> number option"
  | Derived "string list"
      "(number option) obj \<Rightarrow> InMemoryDb \<Rightarrow> FilterContext \<Rightarrow> number option"
  | ContextTransform string string

record MetricDefinition =
  format :: "string option"
  kind :: MetricKind

type_synonym MetricRegistry = "string \<rightharpoonup> MetricDefinition"

text \<open>
  A registry of transforms is an object. Its values are functions when the caller
  respects the declared type; \<open>NotFn\<close> is any other value found there, which happens
  when \<^verbatim>\<open>runQuery\<close> passes its row context in the registry's place. (The values of
  a row context are filter values and cells read back from JSON, none of them callable;
  a function stored in a filter context is outside the model.)
\<close>

datatype TransformEntry = TransformFn "FilterContext \<Rightarrow> FilterContext" | NotFn FilterValue

type_synonym ContextTransformsRegistry = "TransformEntry obj"

text \<open>The values \<open>x\<close> for which \<^verbatim>\<open>!x\<close> is false.\<close>

fun truthy :: "FilterValue \<Rightarrow> bool" where
  "truthy (Prim JUndefined) = False"
| "truthy (Prim JNull) = False"
| "truthy (Prim (JBool b)) = b"
| "truthy (Prim (JNum (Num r))) = (r \<noteq> 0)"
| "truthy (Prim (JNum NaN)) = False"
| "truthy (Prim (JStr s)) = (s \<noteq> [])"
| "truthy (Range f) = True"
| "truthy Func = True"

text \<open>
  The errors the engine throws, by message: \<^verbatim>\<open>Unknown metric\<close>, \<^verbatim>\<open>Unknown fact table\<close>,
  \<^verbatim>\<open>Missing rows for fact table\<close>, \<^verbatim>\<open>Unknown fact column ... for table ...\<close>,
  \<^verbatim>\<open>Unsupported aggregation\<close>, \<^verbatim>\<open>Unknown context transform\<close>,
  \<^verbatim>\<open>Unknown metric kind\<close> (of an entry without a \<^verbatim>\<open>kind\<close>); and the host's
  \<^verbatim>\<open>TypeError\<close> for a call of a value that is not a function or a property read on
  \<^verbatim>\<open>undefined\<close>.
\<close>

datatype error =
    UnknownMetric string
  | UnknownMetricKind
  | UnknownFactTable string
  | MissingRows string
  | UnknownFactColumn string string
  | UnsupportedAggregation string
  | UnknownContextTransform string
  | TypeError

text \<open>
  A call returns a value, throws, or does not return at all (\<open>None\<close>: the recursion
  through dependencies and base metrics is not bounded by the engine).
\<close>

type_synonym 'a outcome = "(error + 'a) option"

section \<open>The metric evaluator\<close>

text \<open>
  The state threaded through an evaluation: the cache (a \<^verbatim>\<open>Map\<close> from key to number or
  \<^verbatim>\<open>null\<close>), and a counter that instruments the model: it counts the aggregations
  run and the caller-supplied functions called, so that "computed once" can be stated.
\<close>

record EvalState =
  cache :: "string \<rightharpoonup> number option"
  invocations :: nat

definition newState :: EvalState where
  "newState = \<lparr>cache = Map.empty, invocations = 0\<rparr>"

definition tick :: "EvalState \<Rightarrow> EvalState" where
  "tick st = st\<lparr>invocations := Suc (invocations st)\<rparr>"

text \<open>
  The \<^verbatim>\<open>factMeasure\<close> branch up to its value: the checks in the source's order, then
  the aggregation over the filtered rows. \<^verbatim>\<open>Number(r[col] ?? 0)\<close> selects the cell.

  When the table's name finds an inherited member in the registry, \<^verbatim>\<open>factDef.grain\<close>
  and \<^verbatim>\<open>factDef.measures\<close> are \<^verbatim>\<open>undefined\<close>: the call throws a \<^verbatim>\<open>TypeError\<close>, in
  \<^verbatim>\<open>grain.includes(key)\<close> or else in \<^verbatim>\<open>factDef.measures[def.factColumn]\<close>. When the
  column's name finds an inherited member among the measures, \<^verbatim>\<open>col\<close> and the default
  aggregation are \<^verbatim>\<open>undefined\<close>: \<^verbatim>\<open>r[col]\<close> reads the property named
  \<^verbatim>\<open>undefined\<close>, and without an aggregation of the metric's own the \<^verbatim>\<open>switch\<close>
  throws.
\<close>

definition cellNumber :: "host \<Rightarrow> string \<Rightarrow> Row \<Rightarrow> number" where
  "cellNumber H col r = ToNumber H (if nullish (get r col) then JNum (Num 0) else get r col)"

definition factMeasureValue ::
  "host \<Rightarrow> InMemoryDb \<Rightarrow> FactTableRegistry \<Rightarrow> FilterContext \<Rightarrow>
   string \<Rightarrow> string \<Rightarrow> Agg option \<Rightarrow> string list option \<Rightarrow> error + number" where
  "factMeasureValue H db factTables context factTable factColumn agg_opt grain_opt =
     (let factDef = registry_get factTables factTable in
      if \<not> found factDef then Inl (UnknownFactTable factTable)
      else
        let rows = registry_get (facts db) factTable in
        if \<not> found rows then Inl (MissingRows factTable)
        else
          case factDef of
            Own fd \<Rightarrow>
              (let g = (case grain_opt of Some g' \<Rightarrow> g' | None \<Rightarrow> grain fd);
                   q = applyContextToFact H (rowsOf rows) context g;
                   factMeasureDef = registry_get (measures fd) factColumn
               in if \<not> found factMeasureDef then Inl (UnknownFactColumn factColumn factTable)
                  else
                    let col = (case factMeasureDef of
                                 Own md \<Rightarrow> column md | _ \<Rightarrow> ''undefined'');
                        agg = (case agg_opt of
                                 Some a \<Rightarrow> Some a
                               | None \<Rightarrow> (case factMeasureDef of
                                           Own md \<Rightarrow> Some (defaultAgg md)
                                         | _ \<Rightarrow> None))
                    in case agg of
                         Some AggSum \<Rightarrow> Inr (linq_sum (cellNumber H col) q)
                       | Some AggAvg \<Rightarrow> Inr (linq_average (cellNumber H col) q)
                       | Some AggCount \<Rightarrow> Inr (linq_count q)
                       | Some (AggOther a) \<Rightarrow> Inl (UnsupportedAggregation a)
                       | None \<Rightarrow> Inl (UnsupportedAggregation ''undefined''))
          | _ \<Rightarrow> Inl TypeError)"

text \<open>
  The \<^verbatim>\<open>expression\<close> branch up to its value. Here an inherited member in the place of
  the table's definition leaves the grain \<^verbatim>\<open>undefined\<close> unless the metric has its own,
  and \<^verbatim>\<open>grain.includes(key)\<close> throws at the first filter that is set.
\<close>

definition expressionValue ::
  "host \<Rightarrow> InMemoryDb \<Rightarrow> FactTableRegistry \<Rightarrow> FilterContext \<Rightarrow> string \<Rightarrow> string list option \<Rightarrow>
   (Row list \<Rightarrow> InMemoryDb \<Rightarrow> FilterContext \<Rightarrow> number option) \<Rightarrow> error + number option" where
  "expressionValue H db factTables context factTable grain_opt expression =
     (let factDef = registry_get factTables factTable in
      if \<not> found factDef then Inl (UnknownFactTable factTable)
      else
        let rows = registry_get (facts db) factTable in
        if \<not> found rows then Inl (MissingRows factTable)
        else
          case (case grain_opt of
                  Some g' \<Rightarrow> Some g'
                | None \<Rightarrow> (case factDef of Own fd \<Rightarrow> Some (grain fd) | _ \<Rightarrow> None)) of
            Some g \<Rightarrow>
              Inr (expression (applyContextToFact H (rowsOf rows) context g) db context)
          | None \<Rightarrow>
              if list_ex (\<lambda>(key, filter). filter \<noteq> Prim JUndefined \<and> filter \<noteq> Prim JNull)
                   context
              then Inl TypeError
              else Inr (expression (rowsOf rows) db context))"

text \<open>
  The loop \<^verbatim>\<open>for (const m of names) results[m] = evaluateMetric(m, ...)\<close>, which the
  source has twice (over the dependencies of a derived metric and in
  \<^verbatim>\<open>evaluateMetrics\<close>): \<open>ev\<close> is the call, the state carries the cache from one
  iteration to the next, and the first throw ends the loop.
\<close>

fun evaluateEach ::
  "(string \<Rightarrow> EvalState \<Rightarrow> (number option \<times> EvalState) outcome) \<Rightarrow> string list \<Rightarrow>
   (number option) obj \<Rightarrow> EvalState \<Rightarrow> ((number option) obj \<times> EvalState) outcome" where
  "evaluateEach ev [] results st = Some (Inr (results, st))"
| "evaluateEach ev (m # ms) results st =
     (case ev m st of
        None \<Rightarrow> None
      | Some (Inl e) \<Rightarrow> Some (Inl e)
      | Some (Inr (v, st')) \<Rightarrow> evaluateEach ev ms (assign m v results) st')"

text \<open>
  \<^verbatim>\<open>evaluateMetric(metricName, db, factTables, metricRegistry, context, transforms, cache)\<close>.
  The first argument bounds the depth of the recursion: with none left the call does
  not return. An inherited member found under the metric's name has no \<^verbatim>\<open>kind\<close>, and
  the last \<^verbatim>\<open>else\<close> throws.
\<close>

fun evaluateMetric ::
  "nat \<Rightarrow> host \<Rightarrow> string \<Rightarrow> InMemoryDb \<Rightarrow> FactTableRegistry \<Rightarrow> MetricRegistry \<Rightarrow>
   FilterContext \<Rightarrow> ContextTransformsRegistry \<Rightarrow> EvalState \<Rightarrow> (number option \<times> EvalState) outcome" where
  "evaluateMetric 0 H metricName db factTables metricRegistry context transforms st = None"
| "evaluateMetric (Suc n) H metricName db factTables metricRegistry context transforms st =
     (let key = cacheKey H metricName context in
      case cache st key of
        Some v \<Rightarrow> Some (Inr (v, st))
      | None \<Rightarrow>
          (case registry_get metricRegistry metricName of
             Absent \<Rightarrow> Some (Inl (UnknownMetric metricName))
           | Inherited \<Rightarrow> Some (Inl UnknownMetricKind)
           | Own mdef \<Rightarrow>
               (case
                  (case kind mdef of
                     FactMeasure factTable factColumn agg_opt grain_opt \<Rightarrow>
                       (case factMeasureValue H db factTables context factTable factColumn
                               agg_opt grain_opt of
                          Inl e \<Rightarrow> Some (Inl e)
                        | Inr v \<Rightarrow> Some (Inr (Some v, tick st)))
                   | Expression factTable grain_opt expression \<Rightarrow>
                       (case expressionValue H db factTables context factTable grain_opt
                               expression of
                          Inl e \<Rightarrow> Some (Inl e)
                        | Inr v \<Rightarrow> Some (Inr (v, tick st)))
                   | Derived dependencies evalFromDeps \<Rightarrow>
                       (case evaluateEach
                               (\<lambda>dep s. evaluateMetric n H dep db factTables metricRegistry
                                           context transforms s)
                               dependencies [] st of
                          None \<Rightarrow> None
                        | Some (Inl e) \<Rightarrow> Some (Inl e)
                        | Some (Inr (depValues, st')) \<Rightarrow>
                            Some (Inr (evalFromDeps depValues db context, tick st')))
                   | ContextTransform baseMeasure transform \<Rightarrow>
                       (case map_of transforms transform of
                          None \<Rightarrow> Some (Inl (UnknownContextTransform transform))
                        | Some (NotFn x) \<Rightarrow>
                            (if truthy x then Some (Inl TypeError)
                             else Some (Inl (UnknownContextTransform transform)))
                        | Some (TransformFn transformFn) \<Rightarrow>
                            evaluateMetric n H baseMeasure db factTables metricRegistry
                              (transformFn context) transforms st))
                of
                  None \<Rightarrow> None
                | Some (Inl e) \<Rightarrow> Some (Inl e)
                | Some (Inr (val, st')) \<Rightarrow>
                    Some (Inr (val, st'\<lparr>cache := (cache st')(key \<mapsto> val)\<rparr>)))))"

text \<open>
  \<^verbatim>\<open>evaluateMetrics(metricNames, db, factTables, metricRegistry, context, transforms)\<close>:
  a new cache, shared by the calls.
\<close>

definition evaluateMetrics ::
  "nat \<Rightarrow> host \<Rightarrow> string list \<Rightarrow> InMemoryDb \<Rightarrow> FactTableRegistry \<Rightarrow> MetricRegistry \<Rightarrow>
   FilterContext \<Rightarrow> ContextTransformsRegistry \<Rightarrow> ((number option) obj) outcome" where
  "evaluateMetrics n H metricNames db factTables metricRegistry context transforms =
     (case evaluateEach
             (\<lambda>m s. evaluateMetric n H m db factTables metricRegistry context transforms s)
             metricNames [] newState of
        None \<Rightarrow> None
      | Some (Inl e) \<Rightarrow> Some (Inl e)
      | Some (Inr (results, st)) \<Rightarrow> Some (Inr results))"

section \<open>The query builder\<close>

record DimensionConfigEntry =
  table :: string
  key :: string
  labelProp :: string
  labelAlias :: string

type_synonym DimensionConfig = "DimensionConfigEntry obj"

text \<open>
  \<^verbatim>\<open>enrichDimensions(keyObj, db, dimensionConfig)\<close>. An inherited member found under
  the name of the dimension table has no \<^verbatim>\<open>find\<close>, and the call of it throws.
\<close>

definition enrichDimensions :: "Row \<Rightarrow> InMemoryDb \<Rightarrow> DimensionConfig \<Rightarrow> error + Row" where
  "enrichDimensions keyObj db dimensionConfig =
     foldl (\<lambda>acc (dimKey, cfg).
              case acc of
                Inl e \<Rightarrow> Inl e
              | Inr result \<Rightarrow>
                  if nullish (get keyObj dimKey) then Inr result
                  else case registry_get (dimensions db) (table cfg) of
                         Absent \<Rightarrow> Inr result
                       | Inherited \<Rightarrow> Inl TypeError
                       | Own dimTable \<Rightarrow>
                           (case find (\<lambda>d. strict_eq (get d (key cfg)) (get keyObj dimKey))
                                   dimTable of
                              None \<Rightarrow> Inr result
                            | Some match \<Rightarrow>
                                Inr (assign (labelAlias cfg) (get match (labelProp cfg)) result)))
       (Inr keyObj) dimensionConfig"

record RunQueryOptions =
  rows :: "string list"
  filters :: "FilterContext option"
  metrics :: "string list"
  factForRows :: string

text \<open>
  The call inside \<^verbatim>\<open>runQuery\<close> is
  \<^verbatim>\<open>evaluateMetric(m, db, factTables, metricRegistry, transforms, rowContext, cache)\<close>:
  the registry of transforms arrives as \<^verbatim>\<open>context\<close> and the row context as
  \<^verbatim>\<open>transforms\<close>. The two functions below read one kind of object as the other.
\<close>

definition as_context :: "ContextTransformsRegistry \<Rightarrow> FilterContext" where
  "as_context T = map (\<lambda>(k, e). (k, case e of TransformFn f \<Rightarrow> Func | NotFn v \<Rightarrow> v)) T"

definition as_registry :: "FilterContext \<Rightarrow> ContextTransformsRegistry" where
  "as_registry c = map (\<lambda>(k, v). (k, NotFn v)) c"

text \<open>The group's key as the grouping computes it.\<close>

definition groupKey :: "host \<Rightarrow> string list \<Rightarrow> Row \<Rightarrow> string" where
  "groupKey H rowDims r = JSON_stringify_row H (pick r rowDims)"

text \<open>
  The inner loop over the metrics of one group: the numeric value, then
  \<^verbatim>\<open>formatValue(numericValue, def.format)\<close> (a \<^verbatim>\<open>TypeError\<close> if \<^verbatim>\<open>def\<close> is
  \<^verbatim>\<open>undefined\<close>; no format if \<^verbatim>\<open>def\<close> is an inherited member).
\<close>

fun metricValuesOf ::
  "(string \<Rightarrow> EvalState \<Rightarrow> (number option \<times> EvalState) outcome) \<Rightarrow> host \<Rightarrow> MetricRegistry \<Rightarrow>
   string list \<Rightarrow> Row \<Rightarrow> EvalState \<Rightarrow> (Row \<times> EvalState) outcome" where
  "metricValuesOf ev H metricRegistry [] metricValues st = Some (Inr (metricValues, st))"
| "metricValuesOf ev H metricRegistry (m # ms) metricValues st =
     (case ev m st of
        None \<Rightarrow> None
      | Some (Inl e) \<Rightarrow> Some (Inl e)
      | Some (Inr (numericValue, st')) \<Rightarrow>
          (case registry_get metricRegistry m of
             Absent \<Rightarrow> Some (Inl TypeError)
           | Inherited \<Rightarrow>
               metricValuesOf ev H metricRegistry ms
                 (assign m (formatValue H numericValue None) metricValues) st'
           | Own mdef \<Rightarrow>
               metricValuesOf ev H metricRegistry ms
                 (assign m (formatValue H numericValue (format mdef)) metricValues) st'))"

text \<open>The outer loop over the groups, one result row each.\<close>

fun queryGroups ::
  "('g \<Rightarrow> EvalState \<Rightarrow> (Row \<times> EvalState) outcome) \<Rightarrow> 'g list \<Rightarrow> Row list \<Rightarrow> EvalState \<Rightarrow>
   (Row list) outcome" where
  "queryGroups body [] result st = Some (Inr result)"
| "queryGroups body (g # gs) result st =
     (case body g st of
        None \<Rightarrow> None
      | Some (Inl e) \<Rightarrow> Some (Inl e)
      | Some (Inr (row, st')) \<Rightarrow> queryGroups body gs (result @ [row]) st')"

text \<open>
  \<^verbatim>\<open>runQuery(db, factTables, metricRegistry, transforms, dimensionConfig, options)\<close>.
  \<^verbatim>\<open>JSON.parse(g.key())\<close> is computed from the first member of the group, whose
  picked dimensions the key was written from.
\<close>

definition runQuery ::
  "nat \<Rightarrow> host \<Rightarrow> InMemoryDb \<Rightarrow> FactTableRegistry \<Rightarrow> MetricRegistry \<Rightarrow>
   ContextTransformsRegistry \<Rightarrow> DimensionConfig \<Rightarrow> RunQueryOptions \<Rightarrow> (Row list) outcome" where
  "runQuery n H db factTables metricRegistry transforms dimensionConfig options =
     (let rowDims = rows options;
          flt = (case filters options of None \<Rightarrow> [] | Some f \<Rightarrow> f);
          factRows = registry_get (facts db) (factForRows options)
      in if \<not> found factRows then Some (Inl (UnknownFactTable (factForRows options)))
         else
             (let factGrain = (case rowsOf factRows of [] \<Rightarrow> [] | r # _ \<Rightarrow> map fst r);
                  filtered = applyContextToFact H (rowsOf factRows) flt factGrain;
                  groups = linq_groupBy (groupKey H rowDims) filtered
              in queryGroups
                   (\<lambda>g st.
                      let keyObj = (case snd g of
                                      [] \<Rightarrow> []
                                    | r # _ \<Rightarrow> JSON_parse_stringify (pick r rowDims));
                          rowContext = spread flt (map (\<lambda>(k, v). (k, Prim v)) keyObj)
                      in case metricValuesOf
                                (\<lambda>m s. evaluateMetric n H m db factTables metricRegistry
                                          (as_context transforms) (as_registry rowContext) s)
                                H metricRegistry (metrics options) [] st of
                           None \<Rightarrow> None
                         | Some (Inl e) \<Rightarrow> Some (Inl e)
                         | Some (Inr (metricValues, st')) \<Rightarrow>
                             (case enrichDimensions keyObj db dimensionConfig of
                                Inl e \<Rightarrow> Some (Inl e)
                              | Inr dimPart \<Rightarrow> Some (Inr (spread dimPart metricValues, st'))))
                   groups [] newState))"

section \<open>A host for the examples\<close>

text \<open>
  The examples below run on a host that prints integers in decimal, reads a string of
  decimal digits as that number, the empty string as 0 and any other string they use as
  \<^verbatim>\<open>NaN\<close>, and rounds \<^verbatim>\<open>toFixed\<close> half away from zero. (A number that is not an
  integer is printed with at most sixteen fractional digits.)
\<close>

fun show_nat :: "nat \<Rightarrow> string" where
  "show_nat n =
     (if n < 10 then [''0123456789'' ! n]
      else show_nat (n div 10) @ [''0123456789'' ! (n mod 10)])"

declare show_nat.simps [simp del]

fun frac_digits :: "nat \<Rightarrow> rat \<Rightarrow> string" where
  "frac_digits 0 x = []"
| "frac_digits (Suc k) x =
     (if x = 0 then []
      else (''0123456789'' ! nat \<lfloor>x * 10\<rfloor>) # frac_digits k (x * 10 - of_int \<lfloor>x * 10\<rfloor>))"

definition show_rat :: "rat \<Rightarrow> string" where
  "show_rat r =
     (let a = \<bar>r\<bar>; i = \<lfloor>a\<rfloor>; f = a - of_int i
      in (if r < 0 then ''-'' else []) @ show_nat (nat i)
         @ (if f = 0 then [] else ''.'' @ frac_digits 16 f))"

definition read_digits :: "string \<Rightarrow> number" where
  "read_digits s =
     (if list_all (\<lambda>c. c \<in> set ''0123456789'') s
      then Num (of_nat (foldl (\<lambda>a c. 10 * a + (of_char c - 48)) 0 s))
      else NaN)"

definition fixed_digits :: "rat \<Rightarrow> nat \<Rightarrow> string" where
  "fixed_digits r d =
     (let n = nat \<lfloor>\<bar>r\<bar> * 10 ^ d + 1 / 2\<rfloor>;
          s = show_nat n;
          s' = replicate (Suc d - length s) CHR ''0'' @ s
      in (if r < 0 then ''-'' else []) @ take (length s' - d) s'
         @ (if d = 0 then [] else ''.'' @ drop (length s' - d) s'))"

definition H0 :: host where
  "H0 = \<lparr>StringToNumber = read_digits, NumberToString = show_rat, toFixed = fixed_digits\<rparr>"

section \<open>Definitions used to state the properties\<close>

subsection \<open>Ranges\<close>

text \<open>
  The number a bound holds, if it holds one; a bound that is missing, \<^verbatim>\<open>null\<close>,
  \<^verbatim>\<open>undefined\<close> or \<^verbatim>\<open>NaN\<close> holds none. A range is numeric when each of its six bound
  properties is missing, \<^verbatim>\<open>null\<close>, \<^verbatim>\<open>undefined\<close> or a number, as \<^verbatim>\<open>FilterRange\<close>
  declares.
\<close>

fun bound_of :: "jsval \<Rightarrow> rat option" where
  "bound_of (JNum (Num b)) = Some b"
| "bound_of _ = None"

fun is_bound :: "jsval \<Rightarrow> bool" where
  "is_bound JUndefined = True"
| "is_bound JNull = True"
| "is_bound (JNum n) = True"
| "is_bound _ = False"

definition numeric_range :: "jsval obj \<Rightarrow> bool" where
  "numeric_range f =
     list_all (\<lambda>k. is_bound (get f k)) [''from'', ''to'', ''gte'', ''lte'', ''gt'', ''lt'']"

fun at_least :: "rat option \<Rightarrow> rat \<Rightarrow> bool" where
  "at_least None x = True"
| "at_least (Some b) x = (b \<le> x)"

fun at_most :: "rat option \<Rightarrow> rat \<Rightarrow> bool" where
  "at_most None x = True"
| "at_most (Some b) x = (x \<le> b)"

fun above :: "rat option \<Rightarrow> rat \<Rightarrow> bool" where
  "above None x = True"
| "above (Some b) x = (b < x)"

fun below :: "rat option \<Rightarrow> rat \<Rightarrow> bool" where
  "below None x = True"
| "below (Some b) x = (x < b)"

text \<open>
  The specification's reading of a range: the value satisfies every bound present,
  \<^verbatim>\<open>from\<close>, \<^verbatim>\<open>to\<close>, \<^verbatim>\<open>gte\<close>, \<^verbatim>\<open>lte\<close> inclusive and \<^verbatim>\<open>gt\<close>, \<^verbatim>\<open>lt\<close> exclusive.
\<close>

definition satisfies_every_bound :: "rat \<Rightarrow> jsval obj \<Rightarrow> bool" where
  "satisfies_every_bound x f =
     (at_least (bound_of (get f ''from'')) x \<and> at_most (bound_of (get f ''to'')) x \<and>
      at_least (bound_of (get f ''gte'')) x \<and> at_most (bound_of (get f ''lte'')) x \<and>
      above (bound_of (get f ''gt'')) x \<and> below (bound_of (get f ''lt'')) x)"

text \<open>
  What the code checks: with a \<^verbatim>\<open>from\<close> or \<^verbatim>\<open>to\<close> property, those two bounds and no
  other; without, the other four.
\<close>

definition checked_bounds :: "rat \<Rightarrow> jsval obj \<Rightarrow> bool" where
  "checked_bounds x f =
     (if has_key ''from'' f \<or> has_key ''to'' f
      then at_least (bound_of (get f ''from'')) x \<and> at_most (bound_of (get f ''to'')) x
      else at_least (bound_of (get f ''gte'')) x \<and> at_most (bound_of (get f ''lte'')) x \<and>
           above (bound_of (get f ''gt'')) x \<and> below (bound_of (get f ''lt'')) x)"

subsection \<open>What a call returns\<close>

text \<open>The value a call returns or the error it throws, without the state it leaves.\<close>

definition result_of :: "('a \<times> EvalState) outcome \<Rightarrow> 'a outcome" where
  "result_of r = map_option (map_sum id fst) r"

text \<open>The grain a fact-table metric is evaluated at: its own, or else the table's.\<close>

definition effectiveGrain :: "string list option \<Rightarrow> FactTableDefinition \<Rightarrow> string list" where
  "effectiveGrain grain_opt factDef = (case grain_opt of Some g \<Rightarrow> g | None \<Rightarrow> grain factDef)"

definition effectiveAgg :: "Agg option \<Rightarrow> FactMeasureDefinition \<Rightarrow> Agg" where
  "effectiveAgg agg_opt factMeasureDef =
     (case agg_opt of Some a \<Rightarrow> a | None \<Rightarrow> defaultAgg factMeasureDef)"

subsection \<open>Example data\<close>

text \<open>
  Three of the sales rows of the demonstration data in the source, without their
  product column, and metrics of the demonstration registry over them. The budget table
  of the demonstration is left out of the example: \<^verbatim>\<open>totalBudget\<close> refers to a table
  that is neither registered nor loaded.
\<close>

definition januaryNA :: Row where
  "januaryNA =
     [(''year'', JNum (Num 2025)), (''month'', JNum (Num 1)), (''regionId'', JStr ''NA''),
      (''quantity'', JNum (Num 10)), (''amount'', JNum (Num 1000))]"

definition februaryNA :: Row where
  "februaryNA =
     [(''year'', JNum (Num 2025)), (''month'', JNum (Num 2)), (''regionId'', JStr ''NA''),
      (''quantity'', JNum (Num 8)), (''amount'', JNum (Num 950))]"

definition februaryEU :: Row where
  "februaryEU =
     [(''year'', JNum (Num 2025)), (''month'', JNum (Num 2)), (''regionId'', JStr ''EU''),
      (''quantity'', JNum (Num 3)), (''amount'', JNum (Num 450))]"

definition salesRows :: "Row list" where
  "salesRows = [januaryNA, februaryNA, februaryEU]"

definition exampleDb :: InMemoryDb where
  "exampleDb = \<lparr>dimensions = Map.empty, facts = [''sales'' \<mapsto> salesRows]\<rparr>"

definition exampleFactTables :: FactTableRegistry where
  "exampleFactTables =
     [''sales'' \<mapsto>
        \<lparr>grain = [''year'', ''month'', ''regionId''],
         measures = [''amount'' \<mapsto> \<lparr>column = ''amount'', defaultAgg = AggSum\<rparr>]\<rparr>]"

text \<open>
  \<^verbatim>\<open>Number(x)\<close> for the value of a filter: a primitive converts as a cell does; a
  range object (which has no \<^verbatim>\<open>toString\<close> or \<^verbatim>\<open>valueOf\<close> of its own) and a function
  convert through their text, which is no numeral, to \<^verbatim>\<open>NaN\<close>.
\<close>

fun filterNumber :: "host \<Rightarrow> FilterValue \<Rightarrow> number" where
  "filterNumber H (Prim p) = ToNumber H p"
| "filterNumber H (Range f) = NaN"
| "filterNumber H Func = NaN"

text \<open>
  The transform \<^verbatim>\<open>ytd\<close> of the demonstration registry:
  \<^verbatim>\<open>if (ctx.year == null || ctx.month == null) return ctx;
  return { ...ctx, month: { lte: Number(ctx.month) } }\<close>.
\<close>

definition ytd :: "host \<Rightarrow> FilterContext \<Rightarrow> FilterContext" where
  "ytd H ctx =
     (case (map_of ctx ''year'', map_of ctx ''month'') of
        (Some y, Some m) \<Rightarrow>
          if y = Prim JUndefined \<or> y = Prim JNull \<or> m = Prim JUndefined \<or> m = Prim JNull
          then ctx
          else assign ''month'' (Range [(''lte'', JNum (filterNumber H m))]) ctx
      | _ \<Rightarrow> ctx)"

definition exampleTransforms :: ContextTransformsRegistry where
  "exampleTransforms = [(''ytd'', TransformFn (ytd H0))]"

text \<open>
  The expression of the demonstration metric \<^verbatim>\<open>pricePerUnit\<close>:
  \<^verbatim>\<open>qty ? amount / qty : null\<close> over the sums of two columns.
\<close>

definition pricePerUnit :: "host \<Rightarrow> Row list \<Rightarrow> InMemoryDb \<Rightarrow> FilterContext \<Rightarrow> number option" where
  "pricePerUnit H q db ctx =
     (case (linq_sum (cellNumber H ''amount'') q, linq_sum (cellNumber H ''quantity'') q) of
        (Num amount, Num qty) \<Rightarrow> if qty = 0 then None else Some (Num (amount / qty))
      | (NaN, Num qty) \<Rightarrow> if qty = 0 then None else Some NaN
      | (_, NaN) \<Rightarrow> None)"

text \<open>
  The combinator of the demonstration metric \<^verbatim>\<open>salesVsBudgetPct\<close>:
  \<^verbatim>\<open>s = totalSalesAmount ?? 0; b = totalBudget ?? 0; if (!b) return null;
  return (s / b) * 100\<close>.
\<close>

definition salesVsBudgetPct ::
  "(number option) obj \<Rightarrow> InMemoryDb \<Rightarrow> FilterContext \<Rightarrow> number option" where
  "salesVsBudgetPct depValues db ctx =
     (let s = (case map_of depValues ''totalSalesAmount'' of Some (Some x) \<Rightarrow> x | _ \<Rightarrow> Num 0);
          b = (case map_of depValues ''totalBudget'' of Some (Some x) \<Rightarrow> x | _ \<Rightarrow> Num 0)
      in case b of
           NaN \<Rightarrow> None
         | Num y \<Rightarrow>
             if y = 0 then None
             else (case s of Num x \<Rightarrow> Some (Num (x / y * 100)) | NaN \<Rightarrow> Some NaN))"

definition exampleMetrics :: MetricRegistry where
  "exampleMetrics =
     [''totalSalesAmount'' \<mapsto>
        \<lparr>format = Some ''currency'', kind = FactMeasure ''sales'' ''amount'' None None\<rparr>,
      ''salesAmountYearRegion'' \<mapsto>
        \<lparr>format = Some ''currency'',
         kind = FactMeasure ''sales'' ''amount'' None (Some [''year'', ''regionId''])\<rparr>,
      ''pricePerUnit'' \<mapsto>
        \<lparr>format = Some ''currency'', kind = Expression ''sales'' None (pricePerUnit H0)\<rparr>,
      ''totalBudget'' \<mapsto>
        \<lparr>format = Some ''currency'',
         kind = FactMeasure ''budget'' ''budgetAmount'' None None\<rparr>,
      ''salesVsBudgetPct'' \<mapsto>
        \<lparr>format = Some ''percent'',
         kind = Derived [''totalSalesAmount'', ''totalBudget''] salesVsBudgetPct\<rparr>,
      ''salesAmountYTD'' \<mapsto>
        \<lparr>format = Some ''currency'', kind = ContextTransform ''totalSalesAmount'' ''ytd''\<rparr>]"

subsection \<open>Fact tables a metric refers to\<close>


definition tableError :: "FactTableRegistry \<Rightarrow> InMemoryDb \<Rightarrow> string \<Rightarrow> error option" where
  "tableError factTables db t =
     (if \<not> found (registry_get factTables t) then Some (UnknownFactTable t)
      else if \<not> found (registry_get (facts db) t) then Some (MissingRows t)
      else None)"

text \<open>The rows \<^verbatim>\<open>runQuery\<close> groups: the fact rows under the base filters.\<close>

definition baseRows :: "host \<Rightarrow> RunQueryOptions \<Rightarrow> Row list \<Rightarrow> Row list" where
  "baseRows H options factRows =
     applyContextToFact H factRows (case filters options of None \<Rightarrow> [] | Some f \<Rightarrow> f)
       (case factRows of [] \<Rightarrow> [] | r # _ \<Rightarrow> map fst r)"

subsection \<open>The evaluator without its cache\<close>

text \<open>
  A reference for what the cache must not change: the evaluator of the source with the
  cache taken out, every metric computed from its definition each time it is reached.
\<close>

fun uncachedEach ::
  "(string \<Rightarrow> (number option) outcome) \<Rightarrow> string list \<Rightarrow> (number option) obj \<Rightarrow>
   ((number option) obj) outcome" where
  "uncachedEach ev [] results = Some (Inr results)"
| "uncachedEach ev (m # ms) results =
     (case ev m of
        None \<Rightarrow> None
      | Some (Inl e) \<Rightarrow> Some (Inl e)
      | Some (Inr v) \<Rightarrow> uncachedEach ev ms (assign m v results))"

fun uncachedMetric ::
  "nat \<Rightarrow> host \<Rightarrow> string \<Rightarrow> InMemoryDb \<Rightarrow> FactTableRegistry \<Rightarrow> MetricRegistry \<Rightarrow>
   FilterContext \<Rightarrow> ContextTransformsRegistry \<Rightarrow> (number option) outcome" where
  "uncachedMetric 0 H metricName db factTables metricRegistry context transforms = None"
| "uncachedMetric (Suc n) H metricName db factTables metricRegistry context transforms =
     (case registry_get metricRegistry metricName of
        Absent \<Rightarrow> Some (Inl (UnknownMetric metricName))
      | Inherited \<Rightarrow> Some (Inl UnknownMetricKind)
      | Own mdef \<Rightarrow>
          (case kind mdef of
             FactMeasure factTable factColumn agg_opt grain_opt \<Rightarrow>
               (case factMeasureValue H db factTables context factTable factColumn
                       agg_opt grain_opt of
                  Inl e \<Rightarrow> Some (Inl e)
                | Inr v \<Rightarrow> Some (Inr (Some v)))
           | Expression factTable grain_opt expression \<Rightarrow>
               (case expressionValue H db factTables context factTable grain_opt expression of
                  Inl e \<Rightarrow> Some (Inl e)
                | Inr v \<Rightarrow> Some (Inr v))
           | Derived dependencies evalFromDeps \<Rightarrow>
               (case uncachedEach
                       (\<lambda>dep. uncachedMetric n H dep db factTables metricRegistry context
                                 transforms)
                       dependencies [] of
                  None \<Rightarrow> None
                | Some (Inl e) \<Rightarrow> Some (Inl e)
                | Some (Inr depValues) \<Rightarrow> Some (Inr (evalFromDeps depValues db context)))
           | ContextTransform baseMeasure transform \<Rightarrow>
               (case map_of transforms transform of
                  None \<Rightarrow> Some (Inl (UnknownContextTransform transform))
                | Some (NotFn x) \<Rightarrow>
                    (if truthy x then Some (Inl TypeError)
                     else Some (Inl (UnknownContextTransform transform)))
                | Some (TransformFn transformFn) \<Rightarrow>
                    uncachedMetric n H baseMeasure db factTables metricRegistry
                      (transformFn context) transforms)))"

text \<open>
  A cache is sound over a set of contexts when each of its entries is the key of a metric
  and a context of the set, and holds the value the metric has there without a cache.
\<close>

definition sound_cache ::
  "host \<Rightarrow> InMemoryDb \<Rightarrow> FactTableRegistry \<Rightarrow> MetricRegistry \<Rightarrow> ContextTransformsRegistry \<Rightarrow>
   FilterContext set \<Rightarrow> EvalState \<Rightarrow> bool" where
  "sound_cache H db factTables metricRegistry transforms S st =
     (\<forall>k v. cache st k = Some v \<longrightarrow>
        (\<exists>m c n. c \<in> S \<and> k = cacheKey H m c \<and>
           uncachedMetric n H m db factTables metricRegistry c transforms = Some (Inr v)))"

text \<open>
  The two conditions on a set of contexts under which the cache is shown transparent: it
  is closed under the registered transforms, and over it the cache key tells metrics and
  contexts apart.
\<close>

definition closed_under :: "ContextTransformsRegistry \<Rightarrow> FilterContext set \<Rightarrow> bool" where
  "closed_under transforms S =
     (\<forall>t f c. map_of transforms t = Some (TransformFn f) \<and> c \<in> S \<longrightarrow> f c \<in> S)"

definition keys_apart :: "host \<Rightarrow> FilterContext set \<Rightarrow> bool" where
  "keys_apart H S =
     (\<forall>m c m' c'. c \<in> S \<and> c' \<in> S \<and> cacheKey H m c = cacheKey H m' c' \<longrightarrow> m = m' \<and> c = c')"

text \<open>
  An example where two contexts share their JSON text: the transform \<^verbatim>\<open>open\<close> replaces
  the month filter by \<^verbatim>\<open>{from: undefined, lte: 1}\<close>, which \<^verbatim>\<open>JSON.stringify\<close> writes
  as it writes \<^verbatim>\<open>{lte: 1}\<close>.
\<close>

definition openMonth :: "FilterContext \<Rightarrow> FilterContext" where
  "openMonth ctx = assign ''month'' (Range [(''from'', JUndefined), (''lte'', JNum (Num 1))]) ctx"

definition collidingTransforms :: ContextTransformsRegistry where
  "collidingTransforms = [(''open'', TransformFn openMonth)]"

definition collidingMetrics :: MetricRegistry where
  "collidingMetrics =
     [''totalSalesAmount'' \<mapsto>
        \<lparr>format = Some ''currency'', kind = FactMeasure ''sales'' ''amount'' None None\<rparr>,
      ''openSales'' \<mapsto>
        \<lparr>format = Some ''currency'', kind = ContextTransform ''totalSalesAmount'' ''open''\<rparr>]"

subsection \<open>The entries a key shows\<close>


subsection \<open>Groups of a query\<close>

text \<open>The distinct elements of a list, in the order in which they are first met.\<close>

definition first_occurrences :: "'a list \<Rightarrow> 'a list" where
  "first_occurrences xs = rev (remdups (rev xs))"


text \<open>The names under which \<^verbatim>\<open>enrichDimensions\<close> stores labels.\<close>

definition labelAliases :: "DimensionConfig \<Rightarrow> string list" where
  "labelAliases dimensionConfig = map (\<lambda>(dimKey, cfg). labelAlias cfg) dimensionConfig"

section \<open>Unfolding the evaluator and the examples\<close>

text \<open>
  One step of \<^verbatim>\<open>evaluateMetric\<close>, by what the cache and the registry hold for the
  metric; after these the defining equation is no longer a rewrite rule.
\<close>

lemma registry_get_Some: "registry name = Some v \<Longrightarrow> registry_get registry name = Own v"
  by (simp add: registry_get_def)

lemma registry_get_None:
  "registry name = None \<Longrightarrow>
   registry_get registry name = (if name \<in> set Object_prototype then Inherited else Absent)"
  by (simp add: registry_get_def)


lemma evaluateMetric_hit:
  assumes "cache st (cacheKey H m c) = Some v"
  shows "evaluateMetric (Suc n) H m db factTables metricRegistry c transforms st
           = Some (Inr (v, st))"
  using assms by (simp add: Let_def)

lemma evaluateMetric_unknown:
  assumes "cache st (cacheKey H m c) = None" "registry_get metricRegistry m = Absent"
  shows "evaluateMetric (Suc n) H m db factTables metricRegistry c transforms st
           = Some (Inl (UnknownMetric m))"
  using assms by (simp add: Let_def)

lemma evaluateMetric_inherited:
  assumes "cache st (cacheKey H m c) = None" "registry_get metricRegistry m = Inherited"
  shows "evaluateMetric (Suc n) H m db factTables metricRegistry c transforms st
           = Some (Inl UnknownMetricKind)"
  using assms by (simp add: Let_def)

lemma evaluateMetric_no_entry:
  assumes "cache st (cacheKey H m c) = None" "metricRegistry m = None"
  shows "evaluateMetric (Suc n) H m db factTables metricRegistry c transforms st
           = Some (Inl (if m \<in> set Object_prototype then UnknownMetricKind
                        else UnknownMetric m))"
  using assms by (simp add: Let_def registry_get_def)

lemma evaluateMetric_miss:
  assumes "cache st (cacheKey H m c) = None" "metricRegistry m = Some mdef"
  shows "evaluateMetric (Suc n) H m db factTables metricRegistry c transforms st =
     (case
        (case kind mdef of
           FactMeasure factTable factColumn agg_opt grain_opt \<Rightarrow>
             (case factMeasureValue H db factTables c factTable factColumn agg_opt grain_opt of
                Inl e \<Rightarrow> Some (Inl e)
              | Inr v \<Rightarrow> Some (Inr (Some v, tick st)))
         | Expression factTable grain_opt expression \<Rightarrow>
             (case expressionValue H db factTables c factTable grain_opt expression of
                Inl e \<Rightarrow> Some (Inl e)
              | Inr v \<Rightarrow> Some (Inr (v, tick st)))
         | Derived dependencies evalFromDeps \<Rightarrow>
             (case evaluateEach
                     (\<lambda>dep s. evaluateMetric n H dep db factTables metricRegistry c transforms s)
                     dependencies [] st of
                None \<Rightarrow> None
              | Some (Inl e) \<Rightarrow> Some (Inl e)
              | Some (Inr (depValues, st')) \<Rightarrow>
                  Some (Inr (evalFromDeps depValues db c, tick st')))
         | ContextTransform baseMeasure transform \<Rightarrow>
             (case map_of transforms transform of
                None \<Rightarrow> Some (Inl (UnknownContextTransform transform))
              | Some (NotFn x) \<Rightarrow>
                  (if truthy x then Some (Inl TypeError)
                   else Some (Inl (UnknownContextTransform transform)))
              | Some (TransformFn transformFn) \<Rightarrow>
                  evaluateMetric n H baseMeasure db factTables metricRegistry
                    (transformFn c) transforms st))
      of
        None \<Rightarrow> None
      | Some (Inl e) \<Rightarrow> Some (Inl e)
      | Some (Inr (val, st')) \<Rightarrow>
          Some (Inr (val, st'\<lparr>cache := (cache st')(cacheKey H m c \<mapsto> val)\<rparr>)))"
  using assms by (simp add: Let_def registry_get_Some)

declare evaluateMetric.simps(2) [simp del]

lemma cache_newState [simp]: "cache newState k = None"
  by (simp add: newState_def)

lemmas example_data =
  exampleDb_def exampleFactTables_def exampleMetrics_def exampleTransforms_def salesRows_def
  januaryNA_def februaryNA_def februaryEU_def

lemmas fact_eval =
  factMeasureValue_def expressionValue_def applyContextToFact_def linq_where_def linq_sum_def
  linq_average_def linq_count_def cellNumber_def get_def registry_get_def Object_prototype_def

text \<open>Values of the example host, and the definitions an example unfolds.\<close>

lemma show_rat_2025: "show_rat 2025 = ''2025''"
  by (simp add: show_rat_def show_nat.simps)

lemma show_rat_2: "show_rat 2 = ''2''"
  by (simp add: show_rat_def show_nat.simps)

lemmas json_text =
  cacheKey_def JSON_stringify_def JSON_stringify_row_def JSON_members_def List.map_filter_def
  QuoteJSONString_def escape_char_def H0_def

lemma show_rat_1: "show_rat 1 = ''1''"
  by (simp add: show_rat_def show_nat.simps)

lemma floor_rat_numeral: "\<lfloor>(numeral a :: rat) / numeral b\<rfloor> = numeral a div numeral b"
  using floor_divide_of_int_eq[of "numeral a" "numeral b", where ?'a = rat] by simp

lemma show_nat_240000: "show_nat 240000 = ''240000''"
  by (simp add: show_nat.simps)

lemma fixed_2400: "fixed_digits 2400 2 = ''2400.00''"
  by (simp add: fixed_digits_def Let_def show_nat_240000 floor_rat_numeral)

lemma show_nat_95000: "show_nat 95000 = ''95000''"
  by (simp add: show_nat.simps)

lemma fixed_950: "fixed_digits 950 2 = ''950.00''"
  by (simp add: fixed_digits_def Let_def show_nat_95000 floor_rat_numeral)

lemmas query_eval =
  runQuery_def Let_def linq_groupBy_def groupKey_def pick_def JSON_parse_stringify_def
  spread_def enrichDimensions_def as_context_def as_registry_def formatValue_def
  registry_get_def Object_prototype_def

section \<open>Unfolding the query builder\<close>

text \<open>
  The groups the row-set adapter forms: one for each distinct key, in the order in which
  the keys are first met, holding the elements with that key in their order.
\<close>

lemma linq_groupBy_snoc:
  "linq_groupBy f (xs @ [x]) = add_to_group (f x) x (linq_groupBy f xs)"
  by (simp add: linq_groupBy_def)

lemma first_occurrences_snoc:
  "first_occurrences (xs @ [x])
     = (if x \<in> set xs then first_occurrences xs else first_occurrences xs @ [x])"
  by (simp add: first_occurrences_def)

lemma set_first_occurrences [simp]: "set (first_occurrences xs) = set xs"
  by (simp add: first_occurrences_def)

lemma distinct_first_occurrences [simp]: "distinct (first_occurrences xs)"
  by (simp add: first_occurrences_def)


lemma add_to_group_char:
  "distinct ks \<Longrightarrow>
   add_to_group k x (map (\<lambda>k'. (k', F k')) ks)
     = (if k \<in> set ks then map (\<lambda>k'. (k', if k' = k then F k' @ [x] else F k')) ks
        else map (\<lambda>k'. (k', F k')) ks @ [(k, [x])])"
  by (induction ks) auto

lemma linq_groupBy_char:
  "linq_groupBy f xs
     = map (\<lambda>k. (k, filter (\<lambda>x. f x = k) xs)) (first_occurrences (map f xs))"
proof (induction xs rule: rev_induct)
  case Nil
  show ?case by (simp add: linq_groupBy_def first_occurrences_def)
next
  case (snoc x xs)
  have none: "filter (\<lambda>y. f y = f x) xs = []" if "f x \<notin> f ` set xs"
    using that by (auto simp: filter_empty_conv image_iff)
  show ?case
    unfolding linq_groupBy_snoc snoc.IH
    by (subst add_to_group_char) (auto simp: first_occurrences_snoc none)
qed


text \<open>One step of the loop over the metrics of a group.\<close>

lemma metricValuesOf_Cons:
  "metricValuesOf ev H mr (m # ms) acc st =
     (case ev m st of
        None \<Rightarrow> None
      | Some (Inl e) \<Rightarrow> Some (Inl e)
      | Some (Inr (v, st')) \<Rightarrow>
          if \<not> found (registry_get mr m) then Some (Inl TypeError)
          else metricValuesOf ev H mr ms
                 (assign m (formatValue H v
                    (case registry_get mr m of Own d \<Rightarrow> format d | _ \<Rightarrow> None)) acc) st')"
  by (cases "registry_get mr m") (simp_all split: option.splits sum.splits)

lemma map_of_assign: "map_of (assign k v al) = (map_of al)(k \<mapsto> v)"
  by (induction al) auto


section \<open>The filter matcher\<close>

lemma js_lt_num: "js_lt H v (JNum n) = number_lt (ToNumber H v) n"
  by (cases v) simp_all

lemma js_gt_num: "js_gt H v (JNum n) = number_lt n (ToNumber H v)"
  by (cases v) (simp_all add: js_gt_def)

lemma js_le_num: "js_le H v (JNum n) = number_le (ToNumber H v) n"
  by (cases v) simp_all

lemma js_ge_num: "js_ge H v (JNum n) = number_le n (ToNumber H v)"
  by (cases v) (simp_all add: js_ge_def)

lemma check_lt:
  "is_bound b \<Longrightarrow> ToNumber H v = Num x \<Longrightarrow>
   (\<not> nullish b \<and> js_lt H v b) = (\<not> at_least (bound_of b) x)"
proof (cases b)
  case (JNum n)
  assume "ToNumber H v = Num x"
  then show ?thesis by (cases n) (auto simp: JNum js_lt_num)
qed simp_all

lemma check_gt:
  "is_bound b \<Longrightarrow> ToNumber H v = Num x \<Longrightarrow>
   (\<not> nullish b \<and> js_gt H v b) = (\<not> at_most (bound_of b) x)"
proof (cases b)
  case (JNum n)
  assume "ToNumber H v = Num x"
  then show ?thesis by (cases n) (auto simp: JNum js_gt_num)
qed simp_all

lemma check_le:
  "is_bound b \<Longrightarrow> ToNumber H v = Num x \<Longrightarrow>
   (\<not> nullish b \<and> js_le H v b) = (\<not> above (bound_of b) x)"
proof (cases b)
  case (JNum n)
  assume "ToNumber H v = Num x"
  then show ?thesis by (cases n) (auto simp: JNum js_le_num)
qed simp_all

lemma check_ge:
  "is_bound b \<Longrightarrow> ToNumber H v = Num x \<Longrightarrow>
   (\<not> nullish b \<and> js_ge H v b) = (\<not> below (bound_of b) x)"
proof (cases b)
  case (JNum n)
  assume "ToNumber H v = Num x"
  then show ?thesis by (cases n) (auto simp: JNum js_ge_num)
qed simp_all

lemma check_nan:
  assumes "is_bound b" "ToNumber H v = NaN"
  shows "(\<not> nullish b \<and> js_lt H v b) = False" "(\<not> nullish b \<and> js_gt H v b) = False"
    "(\<not> nullish b \<and> js_le H v b) = False" "(\<not> nullish b \<and> js_ge H v b) = False"
  using assms by (cases b; simp add: js_lt_num js_gt_num js_le_num js_ge_num)+

text \<open>
  C2, as the code has it. For every value and every range object with numeric bounds:
  a value that does not convert to a number (\<^verbatim>\<open>undefined\<close>, \<^verbatim>\<open>NaN\<close>, a string that is
  no numeral) matches; any other value matches if and only if its number satisfies the
  bounds the code checks, which are \<^verbatim>\<open>from\<close> and \<^verbatim>\<open>to\<close> (inclusive) alone when the
  range has either property, and otherwise \<^verbatim>\<open>gte\<close>, \<^verbatim>\<open>lte\<close> (inclusive) and
  \<^verbatim>\<open>gt\<close>, \<^verbatim>\<open>lt\<close> (exclusive). A bound that is missing constrains nothing, so a range
  with none of the six matches every value.
\<close>

theorem matchesFilter_range:
  assumes "numeric_range f"
  shows "matchesFilter H v (Range f) =
           (case ToNumber H v of NaN \<Rightarrow> True | Num x \<Rightarrow> checked_bounds x f)"
proof -
  from assms have b: "is_bound (get f ''from'')" "is_bound (get f ''to'')"
    "is_bound (get f ''gte'')" "is_bound (get f ''lte'')" "is_bound (get f ''gt'')"
    "is_bound (get f ''lt'')"
    by (simp_all add: numeric_range_def)
  show ?thesis
  proof (cases "ToNumber H v")
    case (Num x)
    show ?thesis
      by (simp add: Num checked_bounds_def check_lt[OF b(1) Num] check_gt[OF b(2) Num]
          check_lt[OF b(3) Num] check_gt[OF b(4) Num] check_le[OF b(5) Num]
          check_ge[OF b(6) Num])
  next
    case NaN
    show ?thesis
      by (simp add: NaN check_nan[OF b(1) NaN] check_nan[OF b(2) NaN] check_nan[OF b(3) NaN]
          check_nan[OF b(4) NaN] check_nan[OF b(5) NaN] check_nan[OF b(6) NaN])
  qed
qed

text \<open>
  The theorem at \<^verbatim>\<open>{gte: 1, lt: 5}\<close>: 3 matches, 5 does not (\<^verbatim>\<open>lt\<close> is exclusive),
  and \<^verbatim>\<open>undefined\<close> matches.
\<close>

theorem matchesFilter_range_witness:
  "numeric_range [(''gte'', JNum (Num 1)), (''lt'', JNum (Num 5))] \<and>
   matchesFilter H0 (JNum (Num 3)) (Range [(''gte'', JNum (Num 1)), (''lt'', JNum (Num 5))]) \<and>
   \<not> matchesFilter H0 (JNum (Num 5)) (Range [(''gte'', JNum (Num 1)), (''lt'', JNum (Num 5))]) \<and>
   matchesFilter H0 JUndefined (Range [(''gte'', JNum (Num 1)), (''lt'', JNum (Num 5))])"
  using matchesFilter_range[of "[(''gte'', JNum (Num 1)), (''lt'', JNum (Num 5))]" H0 "JNum (Num 3)"]
    matchesFilter_range[of "[(''gte'', JNum (Num 1)), (''lt'', JNum (Num 5))]" H0 "JNum (Num 5)"]
    matchesFilter_range[of "[(''gte'', JNum (Num 1)), (''lt'', JNum (Num 5))]" H0 "JUndefined"]
  by (simp add: numeric_range_def get_def checked_bounds_def has_key_def)

text \<open>
  C2 as stated fails: \<^verbatim>\<open>{from: 1, lt: 5}\<close> matches 7, which does not satisfy the
  bound \<^verbatim>\<open>lt: 5\<close> that is present.
\<close>

theorem matchesFilter_range_counterexample:
  "numeric_range [(''from'', JNum (Num 1)), (''lt'', JNum (Num 5))] \<and>
   matchesFilter H0 (JNum (Num 7)) (Range [(''from'', JNum (Num 1)), (''lt'', JNum (Num 5))]) \<and>
   \<not> satisfies_every_bound 7 [(''from'', JNum (Num 1)), (''lt'', JNum (Num 5))]"
  by (simp add: numeric_range_def get_def satisfies_every_bound_def has_key_def js_gt_def)
section \<open>The cache key\<close>














section \<open>The evaluator on one metric\<close>

subsection \<open>Filters outside the grain\<close>

lemma applyContextToFact_filter:
  "applyContextToFact H rs c g =
     filter (\<lambda>r. \<forall>(k, f) \<in> set c. f \<noteq> Prim JUndefined \<and> f \<noteq> Prim JNull \<and> k \<in> set g
                    \<longrightarrow> matchesFilter H (get r k) f) rs"
  unfolding applyContextToFact_def
proof (induction c arbitrary: rs)
  case Nil
  show ?case by simp
next
  case (Cons e c)
  obtain k f where e: "e = (k, f)" by (cases e)
  show ?case
    by (simp add: e Cons.IH linq_where_def)
qed

lemma applyContextToFact_agree:
  assumes "distinct (map fst c)" "distinct (map fst c')"
    and "\<forall>k \<in> set g. map_of c k = map_of c' k"
  shows "applyContextToFact H rs c g = applyContextToFact H rs c' g"
proof -
  have "\<And>k f. k \<in> set g \<Longrightarrow> (k, f) \<in> set c \<longleftrightarrow> (k, f) \<in> set c'"
    using assms by (metis map_of_eq_Some_iff)
  then show ?thesis
    unfolding applyContextToFact_filter by (intro filter_cong refl) blast
qed

text \<open>
  C4. For every fact-measure metric and every two filter contexts that agree on all keys
  of the metric's effective grain (its own grain, or else the fact table's) and differ
  only outside it, \<^verbatim>\<open>evaluateMetric\<close>, called with a new cache, returns the same value
  (or throws the same error, or fails to return alike) for both.
\<close>

theorem grain_property:
  assumes "metricRegistry metricName = Some mdef"
    and "kind mdef = FactMeasure factTable factColumn agg_opt grain_opt"
    and "factTables factTable = Some factDef"
    and "distinct (map fst c)" "distinct (map fst c')"
    and "\<forall>k \<in> set (effectiveGrain grain_opt factDef). map_of c k = map_of c' k"
  shows "result_of (evaluateMetric n H metricName db factTables metricRegistry c transforms newState)
       = result_of (evaluateMetric n H metricName db factTables metricRegistry c' transforms newState)"
proof (cases n)
  case 0
  then show ?thesis by simp
next
  case (Suc n')
  have fd: "registry_get factTables factTable = Own factDef"
    using assms(3) by (simp add: registry_get_def)
  have fm: "factMeasureValue H db factTables c factTable factColumn agg_opt grain_opt
          = factMeasureValue H db factTables c' factTable factColumn agg_opt grain_opt"
    using applyContextToFact_agree[OF assms(4) assms(5) assms(6)]
    by (simp add: factMeasureValue_def fd effectiveGrain_def Let_def)
  show ?thesis
    by (simp add: Suc evaluateMetric_miss assms(1) assms(2) fm result_of_def
        split: sum.splits)
qed

text \<open>
  The theorem on \<^verbatim>\<open>salesAmountYearRegion\<close>, whose grain is year and region: with and
  without the month in the context, the value is the year's total for the region,
  \<open>1000 + 950\<close>.
\<close>

theorem grain_property_witness:
  "result_of (evaluateMetric 1 H0 ''salesAmountYearRegion'' exampleDb exampleFactTables
      exampleMetrics
      [(''year'', Prim (JNum (Num 2025))), (''month'', Prim (JNum (Num 2))),
       (''regionId'', Prim (JStr ''NA''))] exampleTransforms newState)
     = Some (Inr (Some (Num 1950))) \<and>
   result_of (evaluateMetric 1 H0 ''salesAmountYearRegion'' exampleDb exampleFactTables
      exampleMetrics
      [(''regionId'', Prim (JStr ''NA'')), (''year'', Prim (JNum (Num 2025)))]
      exampleTransforms newState)
     = Some (Inr (Some (Num 1950)))"
proof -
  let ?c = "[(''year'', Prim (JNum (Num 2025))), (''month'', Prim (JNum (Num 2))),
       (''regionId'', Prim (JStr ''NA''))]"
  let ?c' = "[(''regionId'', Prim (JStr ''NA'')), (''year'', Prim (JNum (Num 2025)))]"
  have a: "result_of (evaluateMetric 1 H0 ''salesAmountYearRegion'' exampleDb exampleFactTables
      exampleMetrics ?c exampleTransforms newState) = Some (Inr (Some (Num 1950)))"
    by (simp add: evaluateMetric_miss example_data fact_eval result_of_def)
  have "result_of (evaluateMetric 1 H0 ''salesAmountYearRegion'' exampleDb exampleFactTables
      exampleMetrics ?c exampleTransforms newState)
    = result_of (evaluateMetric 1 H0 ''salesAmountYearRegion'' exampleDb exampleFactTables
      exampleMetrics ?c' exampleTransforms newState)"
    by (rule grain_property[where mdef = "\<lparr>format = Some ''currency'',
          kind = FactMeasure ''sales'' ''amount'' None (Some [''year'', ''regionId''])\<rparr>"
        and factTable = "''sales''" and factColumn = "''amount''" and agg_opt = None
        and grain_opt = "Some [''year'', ''regionId'']"
        and factDef = "\<lparr>grain = [''year'', ''month'', ''regionId''],
         measures = [''amount'' \<mapsto> \<lparr>column = ''amount'', defaultAgg = AggSum\<rparr>]\<rparr>"])
      (simp_all add: example_data effectiveGrain_def)
  with a show ?thesis by simp
qed

subsection \<open>No rows\<close>

text \<open>
  C7. For every fact-measure metric whose rows, filtered at its grain under the given
  context, are none, \<^verbatim>\<open>evaluateMetric\<close> returns 0 when the effective aggregation is
  \<^verbatim>\<open>sum\<close> and 0 when it is \<^verbatim>\<open>count\<close>.
\<close>

theorem empty_rows_sum_count:
  assumes "metricRegistry metricName = Some mdef"
    and "kind mdef = FactMeasure factTable factColumn agg_opt grain_opt"
    and "factTables factTable = Some factDef"
    and "facts db factTable = Some factRows"
    and "measures factDef factColumn = Some factMeasureDef"
    and "effectiveAgg agg_opt factMeasureDef = AggSum \<or> effectiveAgg agg_opt factMeasureDef = AggCount"
    and "applyContextToFact H factRows c (effectiveGrain grain_opt factDef) = []"
  shows "result_of (evaluateMetric (Suc n) H metricName db factTables metricRegistry c transforms
                      newState)
           = Some (Inr (Some (Num 0)))"
proof -
  have found: "registry_get factTables factTable = Own factDef"
    "registry_get (facts db) factTable = Own factRows"
    "registry_get (measures factDef) factColumn = Own factMeasureDef"
    using assms(3,4,5) by (simp_all add: registry_get_def)
  have "factMeasureValue H db factTables c factTable factColumn agg_opt grain_opt
          = Inr (Num 0)"
    using assms(6,7)
    by (auto simp: factMeasureValue_def found effectiveGrain_def effectiveAgg_def
        linq_sum_def linq_count_def Let_def split: option.splits)
  then show ?thesis
    by (simp add: evaluateMetric_miss assms(1) assms(2) result_of_def)
qed

text \<open>The theorem on \<^verbatim>\<open>totalSalesAmount\<close> for a year without sales.\<close>

theorem empty_rows_sum_count_witness:
  "applyContextToFact H0 salesRows [(''year'', Prim (JNum (Num 2030)))]
      [''year'', ''month'', ''regionId''] = [] \<and>
   result_of (evaluateMetric 1 H0 ''totalSalesAmount'' exampleDb exampleFactTables
      exampleMetrics [(''year'', Prim (JNum (Num 2030)))] exampleTransforms newState)
     = Some (Inr (Some (Num 0)))"
proof -
  have e: "applyContextToFact H0 salesRows [(''year'', Prim (JNum (Num 2030)))]
      [''year'', ''month'', ''regionId''] = []"
    by (simp add: applyContextToFact_def linq_where_def get_def example_data)
  have "result_of (evaluateMetric (Suc 0) H0 ''totalSalesAmount'' exampleDb exampleFactTables
      exampleMetrics [(''year'', Prim (JNum (Num 2030)))] exampleTransforms newState)
     = Some (Inr (Some (Num 0)))"
    by (rule empty_rows_sum_count[where mdef = "\<lparr>format = Some ''currency'',
          kind = FactMeasure ''sales'' ''amount'' None None\<rparr>"
        and factTable = "''sales''" and factColumn = "''amount''" and agg_opt = None
        and grain_opt = None
        and factDef = "\<lparr>grain = [''year'', ''month'', ''regionId''],
         measures = [''amount'' \<mapsto> \<lparr>column = ''amount'', defaultAgg = AggSum\<rparr>]\<rparr>"
        and factRows = salesRows
        and factMeasureDef = "\<lparr>column = ''amount'', defaultAgg = AggSum\<rparr>"])
      (simp_all add: exampleDb_def exampleFactTables_def exampleMetrics_def effectiveGrain_def
        effectiveAgg_def e)
  with e show ?thesis by simp
qed

subsection \<open>The second call\<close>

text \<open>
  C5. For every metric and context: when a call of \<^verbatim>\<open>evaluateMetric\<close> has returned a
  value, a second call for the same metric and context through the cache the first one
  left returns the same value (a number or \<^verbatim>\<open>null\<close>) and leaves the state as it was:
  the cache is unchanged and so is the count of aggregations run and caller-supplied
  functions called.
\<close>

theorem second_call_cached:
  assumes "evaluateMetric n H metricName db factTables metricRegistry c transforms st
             = Some (Inr (v, st'))"
  shows "evaluateMetric (Suc k) H metricName db factTables metricRegistry c transforms st'
             = Some (Inr (v, st'))"
proof (cases n)
  case 0
  with assms show ?thesis by simp
next
  case (Suc n')
  have "cache st' (cacheKey H metricName c) = Some v"
  proof (cases "cache st (cacheKey H metricName c)")
    case (Some w)
    with assms show ?thesis by (simp add: Suc evaluateMetric_hit)
  next
    case None
    show ?thesis
    proof (cases "metricRegistry metricName")
      case no: None
      with None assms show ?thesis by (simp add: Suc evaluateMetric_no_entry)
    next
      case (Some mdef)
      with None assms show ?thesis
        by (auto simp: Suc evaluateMetric_miss split: option.splits sum.splits)
    qed
  qed
  then show ?thesis by (rule evaluateMetric_hit)
qed

text \<open>
  The theorem on \<^verbatim>\<open>pricePerUnit\<close> for a year without sales: the first call runs the
  expression once and returns \<^verbatim>\<open>null\<close>; the second returns the cached \<^verbatim>\<open>null\<close> and
  the count stays at one.
\<close>

theorem second_call_cached_witness:
  "evaluateMetric 1 H0 ''pricePerUnit'' exampleDb exampleFactTables exampleMetrics
      [(''year'', Prim (JNum (Num 2030)))] exampleTransforms newState
     = Some (Inr (None,
         \<lparr>cache = [cacheKey H0 ''pricePerUnit'' [(''year'', Prim (JNum (Num 2030)))] \<mapsto> None],
          invocations = 1\<rparr>)) \<and>
   evaluateMetric 1 H0 ''pricePerUnit'' exampleDb exampleFactTables exampleMetrics
      [(''year'', Prim (JNum (Num 2030)))] exampleTransforms
      \<lparr>cache = [cacheKey H0 ''pricePerUnit'' [(''year'', Prim (JNum (Num 2030)))] \<mapsto> None],
       invocations = 1\<rparr>
     = Some (Inr (None,
         \<lparr>cache = [cacheKey H0 ''pricePerUnit'' [(''year'', Prim (JNum (Num 2030)))] \<mapsto> None],
          invocations = 1\<rparr>))"
proof -
  have a: "evaluateMetric 1 H0 ''pricePerUnit'' exampleDb exampleFactTables exampleMetrics
      [(''year'', Prim (JNum (Num 2030)))] exampleTransforms newState
     = Some (Inr (None,
         \<lparr>cache = [cacheKey H0 ''pricePerUnit'' [(''year'', Prim (JNum (Num 2030)))] \<mapsto> None],
          invocations = 1\<rparr>))"
    by (simp add: evaluateMetric_miss example_data fact_eval pricePerUnit_def tick_def
        newState_def)
  from second_call_cached[OF a, of 0] a show ?thesis by simp
qed

subsection \<open>Context transforms\<close>

text \<open>
  The step of the evaluator on a context-transform metric that is not in the cache: the
  call for the base metric, one level deeper, decides the outcome.
\<close>

lemma contextTransform_step:
  assumes "metricRegistry metricName = Some mdef"
    and "kind mdef = ContextTransform baseMeasure tname"
    and "map_of transforms tname = Some (TransformFn f)"
    and "cache st (cacheKey H metricName c) = None"
  shows "result_of (evaluateMetric (Suc n) H metricName db factTables metricRegistry c transforms st)
       = result_of (evaluateMetric n H baseMeasure db factTables metricRegistry (f c) transforms st)"
  using assms
  by (auto simp: evaluateMetric_miss result_of_def split: option.splits sum.splits)

text \<open>
  C6. For every context-transform metric whose transform name is registered, and every
  context \<open>c\<close>: \<^verbatim>\<open>evaluateMetric\<close> of the metric under \<open>c\<close> returns what
  \<^verbatim>\<open>evaluateMetric\<close> of its base metric returns under the transformed context, throws
  what it throws, and does not return if it does not (the call for the metric being one
  level of recursion deeper than the call for the base metric alone).
\<close>

theorem contextTransform_composition:
  assumes "metricRegistry metricName = Some mdef"
    and "kind mdef = ContextTransform baseMeasure tname"
    and "map_of transforms tname = Some (TransformFn f)"
  shows "result_of (evaluateMetric (Suc n) H metricName db factTables metricRegistry c transforms
                      newState)
       = result_of (evaluateMetric n H baseMeasure db factTables metricRegistry (f c) transforms
                      newState)"
  using assms by (intro contextTransform_step) simp_all

text \<open>
  The theorem on \<^verbatim>\<open>salesAmountYTD\<close> in February 2025: the total of the year up to
  February, \<open>1000 + 950 + 450\<close>.
\<close>

theorem contextTransform_composition_witness:
  "ytd H0 [(''year'', Prim (JNum (Num 2025))), (''month'', Prim (JNum (Num 2)))]
     = [(''year'', Prim (JNum (Num 2025))), (''month'', Range [(''lte'', JNum (Num 2))])] \<and>
   result_of (evaluateMetric 1 H0 ''totalSalesAmount'' exampleDb exampleFactTables exampleMetrics
      [(''year'', Prim (JNum (Num 2025))), (''month'', Range [(''lte'', JNum (Num 2))])]
      exampleTransforms newState)
     = Some (Inr (Some (Num 2400))) \<and>
   result_of (evaluateMetric 2 H0 ''salesAmountYTD'' exampleDb exampleFactTables exampleMetrics
      [(''year'', Prim (JNum (Num 2025))), (''month'', Prim (JNum (Num 2)))]
      exampleTransforms newState)
     = Some (Inr (Some (Num 2400)))"
proof -
  let ?c = "[(''year'', Prim (JNum (Num 2025))), (''month'', Prim (JNum (Num 2)))]"
  have y: "ytd H0 ?c
     = [(''year'', Prim (JNum (Num 2025))), (''month'', Range [(''lte'', JNum (Num 2))])]"
    by (simp add: ytd_def)
  have b: "result_of (evaluateMetric 1 H0 ''totalSalesAmount'' exampleDb exampleFactTables
      exampleMetrics (ytd H0 ?c) exampleTransforms newState) = Some (Inr (Some (Num 2400)))"
    unfolding y
    by (simp add: evaluateMetric_miss example_data fact_eval result_of_def has_key_def js_gt_def)
  have "result_of (evaluateMetric (Suc 1) H0 ''salesAmountYTD'' exampleDb exampleFactTables
      exampleMetrics ?c exampleTransforms newState)
    = result_of (evaluateMetric 1 H0 ''totalSalesAmount'' exampleDb exampleFactTables
      exampleMetrics (ytd H0 ?c) exampleTransforms newState)"
    by (rule contextTransform_composition[where mdef = "\<lparr>format = Some ''currency'',
          kind = ContextTransform ''totalSalesAmount'' ''ytd''\<rparr>" and tname = "''ytd''"])
      (simp_all add: exampleMetrics_def exampleTransforms_def)
  with b y show ?thesis by (simp add: numeral_2_eq_2)
qed
section \<open>Grouping in the query builder\<close>

lemma map_fst_assign:
  "map fst (assign k v al) = (if k \<in> set (map fst al) then map fst al else map fst al @ [k])"
  by (induction k v al rule: assign.induct) (auto simp: image_iff)

lemma get_assign: "get (assign k v al) d = (if d = k then v else get al d)"
  by (simp add: get_def map_of_assign)

lemma pick_snoc:
  "pick r (ks @ [k])
     = (if get r k \<noteq> JUndefined then assign k (get r k) (pick r ks) else pick r ks)"
  by (simp add: pick_def)

lemma get_pick: "get (pick r ks) d = (if d \<in> set ks then get r d else JUndefined)"
proof (induction ks arbitrary: d rule: rev_induct)
  case Nil
  show ?case by (simp add: pick_def get_def)
next
  case (snoc k ks)
  show ?case by (auto simp: pick_snoc get_assign snoc.IH)
qed

lemma map_fst_pick:
  "map fst (pick r ks) = first_occurrences (filter (\<lambda>d. get r d \<noteq> JUndefined) ks)"
proof (induction ks rule: rev_induct)
  case Nil
  show ?case by (simp add: pick_def first_occurrences_def)
next
  case (snoc k ks)
  show ?case
    by (auto simp: pick_snoc map_fst_assign snoc.IH first_occurrences_snoc)
qed

lemma pick_defined: "(k, v) \<in> set (pick r ks) \<Longrightarrow> v = get r k \<and> v \<noteq> JUndefined"
proof (induction ks arbitrary: k v rule: rev_induct)
  case Nil
  then show ?case by (simp add: pick_def)
next
  case (snoc x xs)
  have in_assign: "(k, v) \<in> set (assign a b al) \<Longrightarrow> (k, v) = (a, b) \<or> (k, v) \<in> set al"
    for a b and al :: Row
    by (induction al) (auto split: if_splits)
  from snoc.prems show ?case
    by (auto simp: pick_snoc dest!: in_assign snoc.IH split: if_splits)
qed

lemma JSON_parse_stringify_pick:
  "JSON_parse_stringify (pick r ks) = map (\<lambda>(k, v). (k, JSON_reread v)) (pick r ks)"
proof -
  have "filter (\<lambda>(k, v). v \<noteq> JUndefined) (pick r ks) = pick r ks"
    by (rule filter_True) (auto dest: pick_defined)
  then show ?thesis by (simp add: JSON_parse_stringify_def)
qed

lemma get_keyObj:
  "get (JSON_parse_stringify (pick r ks)) d
     = (if d \<in> set ks then JSON_reread (get r d) else JUndefined)"
proof -
  have "map_of (map (\<lambda>(k, v). (k, JSON_reread v)) al) d = map_option JSON_reread (map_of al d)"
    for al :: Row
    by (induction al) auto
  then have "get (JSON_parse_stringify (pick r ks)) d = JSON_reread (get (pick r ks) d)"
    by (simp add: JSON_parse_stringify_pick get_def split: option.splits)
  then show ?thesis by (simp add: get_pick)
qed

lemma get_spread: "d \<notin> set (map fst b) \<Longrightarrow> get (spread a b) d = get a d"
proof (induction b arbitrary: a rule: rev_induct)
  case Nil
  show ?case by (simp add: spread_def)
next
  case (snoc e es)
  obtain k v where e: "e = (k, v)" by (cases e)
  from snoc show ?case by (simp add: spread_def e get_assign)
qed

lemma enrichDimensions_thrown:
  "foldl (\<lambda>acc (dimKey, cfg). case acc of Inl e \<Rightarrow> Inl e | Inr result \<Rightarrow> step result dimKey cfg)
     (Inl e) dimensionConfig = Inl e"
  by (induction dimensionConfig) auto

lemma get_enrichDimensions:
  assumes "enrichDimensions keyObj db dimensionConfig = Inr row"
    and "d \<notin> set (labelAliases dimensionConfig)"
  shows "get row d = get keyObj d"
proof -
  let ?step = "\<lambda>result dimKey cfg.
      if nullish (get keyObj dimKey) then Inr result
      else case registry_get (dimensions db) (table cfg) of
             Absent \<Rightarrow> Inr result
           | Inherited \<Rightarrow> Inl TypeError
           | Own dimTable \<Rightarrow>
               (case find (\<lambda>d. strict_eq (get d (key cfg)) (get keyObj dimKey)) dimTable of
                  None \<Rightarrow> Inr result
                | Some match \<Rightarrow>
                    Inr (assign (labelAlias cfg) (get match (labelProp cfg)) result))"
  have "foldl (\<lambda>acc (dimKey, cfg). case acc of Inl e \<Rightarrow> Inl e
                 | Inr result \<Rightarrow> ?step result dimKey cfg) (Inr acc) dc = Inr row \<Longrightarrow>
        d \<notin> set (labelAliases dc) \<Longrightarrow> get row d = get acc d" for acc dc
  proof (induction dc arbitrary: acc)
    case Nil
    then show ?case by simp
  next
    case (Cons x xs)
    obtain dimKey cfg where x: "x = (dimKey, cfg)" by (cases x)
    from Cons.prems(2) have d: "d \<noteq> labelAlias cfg" "d \<notin> set (labelAliases xs)"
      by (simp_all add: labelAliases_def x)
    show ?case
    proof (cases "?step acc dimKey cfg")
      case (Inl e)
      with Cons.prems(1) show ?thesis
        by (simp add: x enrichDimensions_thrown)
    next
      case (Inr acc')
      with Cons.prems(1) have "get row d = get acc' d"
        by (intro Cons.IH d) (simp add: x)
      moreover from Inr d(1) have "get acc' d = get acc d"
        by (auto simp: get_assign split: if_splits property.splits option.splits)
      ultimately show ?thesis by simp
    qed
  qed
  from this[of keyObj dimensionConfig] assms show ?thesis
    by (simp add: enrichDimensions_def)
qed

lemma metricValuesOf_names:
  "metricValuesOf ev H mr ms acc st = Some (Inr (metricValues, st')) \<Longrightarrow>
   set (map fst metricValues) \<subseteq> set (map fst acc) \<union> set ms"
proof (induction ms arbitrary: acc st)
  case Nil
  then show ?case by simp
next
  case (Cons m ms)
  from Cons.prems obtain v s1 fmt where
    "metricValuesOf ev H mr ms (assign m (formatValue H v fmt) acc) s1
       = Some (Inr (metricValues, st'))"
    by (auto simp: metricValuesOf_Cons simp del: metricValuesOf.simps
        split: option.splits sum.splits if_splits)
  from Cons.IH[OF this] show ?case
    by (auto simp: map_fst_assign split: if_splits)
qed

lemma queryGroups_rows:
  "queryGroups body gs acc st = Some (Inr result) \<Longrightarrow>
   \<exists>rows'. result = acc @ rows' \<and> length rows' = length gs \<and>
     (\<forall>i < length gs. \<exists>s s'. body (gs ! i) s = Some (Inr (rows' ! i, s')))"
proof (induction gs arbitrary: acc st)
  case Nil
  then show ?case by simp
next
  case (Cons g gs)
  from Cons.prems obtain row s1 where
    b: "body g st = Some (Inr (row, s1))"
    and q: "queryGroups body gs (acc @ [row]) s1 = Some (Inr result)"
    by (auto split: option.splits sum.splits)
  from Cons.IH[OF q] obtain rows' where
    r: "result = (acc @ [row]) @ rows'" "length rows' = length gs"
       "\<forall>i < length gs. \<exists>s s'. body (gs ! i) s = Some (Inr (rows' ! i, s'))"
    by blast
  have "\<exists>s s'. body ((g # gs) ! i) s = Some (Inr ((row # rows') ! i, s'))"
    if "i < length (g # gs)" for i
    using that b r(3) by (cases i) auto
  with r(1,2) show ?case
    by (intro exI[where x = "row # rows'"]) simp
qed

lemma pick_foldl_agree:
  assumes "\<forall>k \<in> set ks. get r k = get r' k"
  shows "foldl (\<lambda>out k. if get r k \<noteq> JUndefined then assign k (get r k) out else out) acc ks
       = foldl (\<lambda>out k. if get r' k \<noteq> JUndefined then assign k (get r' k) out else out) acc ks"
  using assms by (induction ks arbitrary: acc) simp_all

lemma pick_agree: "\<forall>k \<in> set ks. get r k = get r' k \<Longrightarrow> pick r ks = pick r' ks"
  unfolding pick_def by (rule pick_foldl_agree)

lemma group_row:
  assumes "(case metricValuesOf ev H mr ms [] s of
              None \<Rightarrow> None
            | Some (Inl e) \<Rightarrow> Some (Inl e)
            | Some (Inr (metricValues, st')) \<Rightarrow>
                (case enrichDimensions keyObj db dimensionConfig of
                   Inl e \<Rightarrow> Some (Inl e)
                 | Inr dimPart \<Rightarrow> Some (Inr (spread dimPart metricValues, st'))))
           = Some (Inr (row, s'))"
    and "d \<notin> set ms" "d \<notin> set (labelAliases dimensionConfig)"
  shows "get row d = get keyObj d"
proof -
  from assms(1) obtain metricValues dimPart where
    m: "metricValuesOf ev H mr ms [] s = Some (Inr (metricValues, s'))"
    and e: "enrichDimensions keyObj db dimensionConfig = Inr dimPart"
    and r: "row = spread dimPart metricValues"
    by (auto split: option.splits sum.splits)
  from metricValuesOf_names[OF m] assms(2) have "d \<notin> set (map fst metricValues)" by auto
  then have "get row d = get dimPart d" unfolding r by (rule get_spread)
  also have "\<dots> = get keyObj d" using e assms(3) by (rule get_enrichDimensions)
  finally show ?thesis .
qed

text \<open>
  C9, as the code has it. In \<^verbatim>\<open>runQuery\<close> the filtered rows are grouped by the JSON text
  of their projection onto the requested dimensions. There is one group for each distinct
  key, in the order in which the keys are first met, holding the rows with that key; the
  result has one row for each group, in that order, which shows for every requested
  dimension (unless a metric or a label is stored under its name) the value the first row
  of the group has, as read back from JSON. The projection of a row holds the requested
  dimensions the row has, in the order of the request, with the row's values: two rows
  with the same values of those dimensions have the same key, whatever their other columns
  and the order of their columns. A dimension the row lacks is left out of the projection
  and so of the key.
\<close>

theorem grouping_by_projection:
  fixes options :: RunQueryOptions and H :: host and factRows :: "Row list"
  defines "dims \<equiv> rows options"
    and "base \<equiv> baseRows H options factRows"
    and "keys \<equiv> first_occurrences (map (groupKey H (rows options))
                                       (baseRows H options factRows))"
  assumes "facts db (factForRows options) = Some factRows"
    and "runQuery n H db factTables metricRegistry transforms dimensionConfig options
           = Some (Inr result)"
  shows
    "linq_groupBy (groupKey H dims) base
       = map (\<lambda>k. (k, filter (\<lambda>r. groupKey H dims r = k) base)) keys \<and>
     length result = length keys \<and>
     (\<forall>i < length keys. \<forall>d \<in> set dims.
        d \<notin> set (metrics options) \<and> d \<notin> set (labelAliases dimensionConfig) \<longrightarrow>
        get (result ! i) d
          = JSON_reread (get (hd (filter (\<lambda>r. groupKey H dims r = keys ! i) base)) d)) \<and>
     (\<forall>r. groupKey H dims r = JSON_stringify_row H (pick r dims) \<and>
          map fst (pick r dims) = first_occurrences (filter (\<lambda>d. get r d \<noteq> JUndefined) dims) \<and>
          (\<forall>d. get (pick r dims) d = (if d \<in> set dims then get r d else JUndefined))) \<and>
     (\<forall>r r'. (\<forall>d \<in> set dims. get r d = get r' d) \<longrightarrow>
          groupKey H dims r = groupKey H dims r')"
proof -
  let ?gk = "groupKey H dims"
  let ?groups = "map (\<lambda>k. (k, filter (\<lambda>r. ?gk r = k) base)) keys"
  let ?flt = "case filters options of None \<Rightarrow> [] | Some f \<Rightarrow> f"
  let ?body = "\<lambda>g st.
      case metricValuesOf
             (\<lambda>m s. evaluateMetric n H m db factTables metricRegistry (as_context transforms)
                (as_registry (spread ?flt (map (\<lambda>(k, v). (k, Prim v))
                   (case snd g of [] \<Rightarrow> [] | r # _ \<Rightarrow> JSON_parse_stringify (pick r dims))))) s)
             H metricRegistry (metrics options) [] st of
        None \<Rightarrow> None
      | Some (Inl e) \<Rightarrow> Some (Inl e)
      | Some (Inr (metricValues, st')) \<Rightarrow>
          (case enrichDimensions
                  (case snd g of [] \<Rightarrow> [] | r # _ \<Rightarrow> JSON_parse_stringify (pick r dims))
                  db dimensionConfig of
             Inl e \<Rightarrow> Some (Inl e)
           | Inr dimPart \<Rightarrow> Some (Inr (spread dimPart metricValues, st')))"
  have groups: "linq_groupBy ?gk base = ?groups"
    unfolding keys_def dims_def base_def by (rule linq_groupBy_char)
  have f: "registry_get (facts db) (factForRows options) = Own factRows"
    using assms(4) by (simp add: registry_get_def)
  have "runQuery n H db factTables metricRegistry transforms dimensionConfig options
          = queryGroups ?body (linq_groupBy ?gk base) [] newState"
    unfolding dims_def base_def
    by (simp add: runQuery_def Let_def f baseRows_def)
  with assms(5) groups
  have run: "queryGroups ?body ?groups [] newState = Some (Inr result)"
    by simp
  from queryGroups_rows[OF run] have len: "length result = length keys"
    and each: "\<forall>i < length keys. \<exists>s s'. ?body (?groups ! i) s = Some (Inr (result ! i, s'))"
    by auto
  have cell: "get (result ! i) d
          = JSON_reread (get (hd (filter (\<lambda>r. ?gk r = keys ! i) base)) d)"
    if i: "i < length keys" and d: "d \<in> set dims" "d \<notin> set (metrics options)"
      "d \<notin> set (labelAliases dimensionConfig)" for i d
  proof -
    have "keys ! i \<in> set (map ?gk base)"
      using i nth_mem[of i keys] by (simp add: keys_def dims_def base_def)
    then have "filter (\<lambda>r. ?gk r = keys ! i) base \<noteq> []"
      by (auto simp: filter_empty_conv)
    then obtain r0 rs0 where r0: "filter (\<lambda>r. ?gk r = keys ! i) base = r0 # rs0"
      by (cases "filter (\<lambda>r. ?gk r = keys ! i) base") auto
    have g: "?groups ! i = (keys ! i, r0 # rs0)"
      using i by (simp add: r0)
    from each i obtain s s' where
      b: "?body (?groups ! i) s = Some (Inr (result ! i, s'))" by blast
    have "get (result ! i) d = get (JSON_parse_stringify (pick r0 dims)) d"
      using b[unfolded g snd_conv list.case] d(2,3) by (rule group_row)
    then show ?thesis using d(1) by (simp add: r0 get_keyObj)
  qed
  have key: "?gk r = ?gk r'" if "\<forall>d \<in> set dims. get r d = get r' d" for r r'
    using pick_agree[OF that] by (simp add: groupKey_def)
  from groups len cell key show ?thesis
    by (simp add: groupKey_def map_fst_pick get_pick)
qed

text \<open>
  The theorem on the sales rows grouped by region and product, which no row has: two
  groups, keyed by the region alone, the two rows of region NA in the first; and a result
  row for each, with the region of its group.
\<close>

theorem grouping_by_projection_witness:
  "runQuery 1 H0 exampleDb exampleFactTables exampleMetrics exampleTransforms []
      \<lparr>rows = [''regionId'', ''productId''], filters = None,
       metrics = [''totalSalesAmount''], factForRows = ''sales''\<rparr>
     = Some (Inr [[(''regionId'', JStr ''NA''), (''totalSalesAmount'', JStr ''$2400.00'')],
                  [(''regionId'', JStr ''EU''), (''totalSalesAmount'', JStr ''$2400.00'')]]) \<and>
   linq_groupBy (groupKey H0 [''regionId'', ''productId'']) salesRows
     = [(''{\"regionId\":\"NA\"}'', [januaryNA, februaryNA]),
        (''{\"regionId\":\"EU\"}'', [februaryEU])] \<and>
   map fst (pick februaryEU [''regionId'', ''productId'']) = [''regionId''] \<and>
   groupKey H0 [''regionId'', ''productId''] januaryNA
     = groupKey H0 [''regionId'', ''productId''] februaryNA"
proof -
  let ?q = "\<lparr>rows = [''regionId'', ''productId''], filters = None,
       metrics = [''totalSalesAmount''], factForRows = ''sales''\<rparr>"
  let ?R = "[[(''regionId'', JStr ''NA''), (''totalSalesAmount'', JStr ''$2400.00'')],
             [(''regionId'', JStr ''EU''), (''totalSalesAmount'', JStr ''$2400.00'')]]"
  let ?dims = "[''regionId'', ''productId'']"
  have run: "runQuery 1 H0 exampleDb exampleFactTables exampleMetrics exampleTransforms [] ?q
               = Some (Inr ?R)"
    by (simp add: query_eval example_data fact_eval json_text evaluateMetric_miss
        evaluateMetric_hit has_key_def newState_def tick_def fixed_2400)
  have facts: "facts exampleDb (factForRows ?q) = Some salesRows"
    by (simp add: exampleDb_def)
  have base: "baseRows H0 ?q salesRows = salesRows"
    by (simp add: baseRows_def applyContextToFact_def)
  have k1: "groupKey H0 ?dims januaryNA = ''{\"regionId\":\"NA\"}''"
    by (simp add: groupKey_def pick_def get_def januaryNA_def json_text)
  have k2: "groupKey H0 ?dims februaryNA = ''{\"regionId\":\"NA\"}''"
    by (simp add: groupKey_def pick_def get_def februaryNA_def json_text)
  have k3: "groupKey H0 ?dims februaryEU = ''{\"regionId\":\"EU\"}''"
    by (simp add: groupKey_def pick_def get_def februaryEU_def json_text)
  have keys: "first_occurrences (map (groupKey H0 ?dims) salesRows)
                = [''{\"regionId\":\"NA\"}'', ''{\"regionId\":\"EU\"}'']"
    by (simp add: salesRows_def k1 k2 k3 first_occurrences_def)
  have same: "\<forall>d \<in> set ?dims. get januaryNA d = get februaryNA d"
    by (simp add: get_def januaryNA_def februaryNA_def)
  have absent: "filter (\<lambda>d. get februaryEU d \<noteq> JUndefined) ?dims = [''regionId'']"
    by (simp add: get_def februaryEU_def)
  note t = grouping_by_projection[OF facts run]
  note t1 = t[THEN conjunct1]
  note t4 = t[THEN conjunct2, THEN conjunct2, THEN conjunct2, THEN conjunct1]
  note t5 = t[THEN conjunct2, THEN conjunct2, THEN conjunct2, THEN conjunct2]
  from t1 have "linq_groupBy (groupKey H0 ?dims) salesRows
      = map (\<lambda>k. (k, filter (\<lambda>r. groupKey H0 ?dims r = k) salesRows))
          [''{\"regionId\":\"NA\"}'', ''{\"regionId\":\"EU\"}'']"
    by (simp add: base keys)
  then have groups: "linq_groupBy (groupKey H0 ?dims) salesRows
     = [(''{\"regionId\":\"NA\"}'', [januaryNA, februaryNA]),
        (''{\"regionId\":\"EU\"}'', [februaryEU])]"
    by (simp add: salesRows_def k1 k2 k3)
  from t4[rule_format, of februaryEU] have "map fst (pick februaryEU ?dims)
      = first_occurrences (filter (\<lambda>d. get februaryEU d \<noteq> JUndefined) ?dims)"
    by simp
  then have names: "map fst (pick februaryEU ?dims) = [''regionId'']"
    by (simp only: absent first_occurrences_def) simp
  from t5[rule_format, of januaryNA februaryNA] same
  have key: "groupKey H0 ?dims januaryNA = groupKey H0 ?dims februaryNA"
    by simp
  from run groups names key show ?thesis by simp
qed

text \<open>
  C9 as stated fails where it says that a missing dimension value is encoded in the key
  as a sentinel: grouped by region and product, a row without a product has the key
  \<^verbatim>\<open>{"regionId":"NA"}\<close>, the very key it has when grouped by region alone.
\<close>

theorem grouping_sentinel_counterexample:
  "get januaryNA ''productId'' = JUndefined \<and>
   groupKey H0 [''regionId'', ''productId''] januaryNA = ''{\"regionId\":\"NA\"}'' \<and>
   groupKey H0 [''regionId'', ''productId''] januaryNA = groupKey H0 [''regionId''] januaryNA"
  by (simp add: groupKey_def pick_def get_def januaryNA_def json_text)

section \<open>Unknown fact tables\<close>

















text \<open>
  A name that a registry does not hold but every object inherits is not unknown to the
  code. A metric on the fact table \<^verbatim>\<open>constructor\<close> passes both tests and then throws a
  \<^verbatim>\<open>TypeError\<close>; the metric \<^verbatim>\<open>toString\<close> is found and has no kind; a query that
  groups the fact table \<^verbatim>\<open>constructor\<close> finds no row and returns none.
\<close>

lemma inherited_names:
  "tableError Map.empty exampleDb ''constructor'' = None \<and>
   factMeasureValue H exampleDb Map.empty c ''constructor'' factColumn agg_opt grain_opt
     = Inl TypeError \<and>
   evaluateMetric 1 H ''toString'' db factTables exampleMetrics c transforms newState
     = Some (Inl UnknownMetricKind) \<and>
   runQuery n H exampleDb factTables metricRegistry transforms dimensionConfig
      \<lparr>rows = dims, filters = None, metrics = ms, factForRows = ''constructor''\<rparr>
     = Some (Inr [])"
proof -
  have a: "tableError Map.empty exampleDb ''constructor'' = None"
    by (simp add: tableError_def registry_get_def Object_prototype_def exampleDb_def)
  have b: "factMeasureValue H exampleDb Map.empty c ''constructor'' factColumn agg_opt grain_opt
     = Inl TypeError"
    by (simp add: factMeasureValue_def registry_get_def Object_prototype_def exampleDb_def)
  have r: "registry_get exampleMetrics ''toString'' = Inherited"
    by (simp add: registry_get_def Object_prototype_def exampleMetrics_def)
  have c: "evaluateMetric 1 H ''toString'' db factTables exampleMetrics c transforms newState
     = Some (Inl UnknownMetricKind)"
    using evaluateMetric_inherited[where st = newState and n = 0, OF _ r] by simp
  have d: "runQuery n H exampleDb factTables metricRegistry transforms dimensionConfig
      \<lparr>rows = dims, filters = None, metrics = ms, factForRows = ''constructor''\<rparr>
     = Some (Inr [])"
    by (simp add: runQuery_def registry_get_def Object_prototype_def exampleDb_def
        applyContextToFact_def linq_groupBy_def)
  from a b c d show ?thesis by simp
qed



section \<open>The metrics of a query\<close>

text \<open>
  C1 does not hold of the code. \<^verbatim>\<open>runQuery\<close> calls
  \<^verbatim>\<open>evaluateMetric(m, db, factTables, metricRegistry, transforms, rowContext, cache)\<close>,
  while the parameters are \<^verbatim>\<open>(..., context, transforms, cache)\<close>: the metric is
  evaluated under the registry of transforms, not under the group's row context. For
  February 2025 by region, the code gives both regions the total of all sales rows,
  \<open>2400\<close>; under the row context of region NA the metric is \<open>950\<close>. A
  context-transform metric finds no function under its transform's name in the row
  context, and the query throws.
\<close>

theorem runQuery_swapped_arguments:
  "runQuery 1 H0 exampleDb exampleFactTables exampleMetrics exampleTransforms []
      \<lparr>rows = [''regionId''],
       filters = Some [(''year'', Prim (JNum (Num 2025))), (''month'', Prim (JNum (Num 2)))],
       metrics = [''totalSalesAmount''], factForRows = ''sales''\<rparr>
     = Some (Inr [[(''regionId'', JStr ''NA''), (''totalSalesAmount'', JStr ''$2400.00'')],
                  [(''regionId'', JStr ''EU''), (''totalSalesAmount'', JStr ''$2400.00'')]]) \<and>
   result_of (evaluateMetric 1 H0 ''totalSalesAmount'' exampleDb exampleFactTables exampleMetrics
      [(''year'', Prim (JNum (Num 2025))), (''month'', Prim (JNum (Num 2))),
       (''regionId'', Prim (JStr ''NA''))] exampleTransforms newState)
     = Some (Inr (Some (Num 950))) \<and>
   formatValue H0 (Some (Num 950)) (Some ''currency'') = JStr ''$950.00'' \<and>
   runQuery 2 H0 exampleDb exampleFactTables exampleMetrics exampleTransforms []
      \<lparr>rows = [''regionId''],
       filters = Some [(''year'', Prim (JNum (Num 2025))), (''month'', Prim (JNum (Num 2)))],
       metrics = [''salesAmountYTD''], factForRows = ''sales''\<rparr>
     = Some (Inl (UnknownContextTransform ''ytd''))"
proof -
  have a: "runQuery 1 H0 exampleDb exampleFactTables exampleMetrics exampleTransforms []
      \<lparr>rows = [''regionId''],
       filters = Some [(''year'', Prim (JNum (Num 2025))), (''month'', Prim (JNum (Num 2)))],
       metrics = [''totalSalesAmount''], factForRows = ''sales''\<rparr>
     = Some (Inr [[(''regionId'', JStr ''NA''), (''totalSalesAmount'', JStr ''$2400.00'')],
                  [(''regionId'', JStr ''EU''), (''totalSalesAmount'', JStr ''$2400.00'')]])"
    by (simp add: query_eval example_data fact_eval json_text evaluateMetric_miss
        evaluateMetric_hit has_key_def newState_def tick_def fixed_2400)
  have b: "result_of (evaluateMetric 1 H0 ''totalSalesAmount'' exampleDb exampleFactTables
      exampleMetrics
      [(''year'', Prim (JNum (Num 2025))), (''month'', Prim (JNum (Num 2))),
       (''regionId'', Prim (JStr ''NA''))] exampleTransforms newState)
     = Some (Inr (Some (Num 950)))"
    by (simp add: evaluateMetric_miss example_data fact_eval result_of_def)
  have c: "formatValue H0 (Some (Num 950)) (Some ''currency'') = JStr ''$950.00''"
    by (simp add: formatValue_def H0_def fixed_950)
  have d: "runQuery 2 H0 exampleDb exampleFactTables exampleMetrics exampleTransforms []
      \<lparr>rows = [''regionId''],
       filters = Some [(''year'', Prim (JNum (Num 2025))), (''month'', Prim (JNum (Num 2)))],
       metrics = [''salesAmountYTD''], factForRows = ''sales''\<rparr>
     = Some (Inl (UnknownContextTransform ''ytd''))"
    by (simp add: query_eval example_data fact_eval json_text evaluateMetric_miss
        has_key_def newState_def numeral_2_eq_2)
  from a b c d show ?thesis by simp
qed

section \<open>Transparency of the cache\<close>

declare uncachedMetric.simps(2) [simp del]

lemma uncachedEach_mono:
  assumes "\<And>m r. ev m = Some r \<Longrightarrow> ev' m = Some r" "uncachedEach ev ms acc = Some r"
  shows "uncachedEach ev' ms acc = Some r"
  using assms(2)
proof (induction ms arbitrary: acc)
  case Nil
  then show ?case by simp
next
  case (Cons m ms)
  from Cons.prems obtain x where x: "ev m = Some x"
    by (cases "ev m") simp_all
  then have x': "ev' m = Some x" by (rule assms(1))
  show ?case
  proof (cases x)
    case (Inl e)
    with Cons.prems x x' show ?thesis by simp
  next
    case (Inr v)
    with Cons.prems x x' Cons.IH[of "assign m v acc"] show ?thesis by simp
  qed
qed

lemma uncachedMetric_Suc:
  "uncachedMetric n H m db factTables metricRegistry c transforms = Some r \<Longrightarrow>
   uncachedMetric (Suc n) H m db factTables metricRegistry c transforms = Some r"
proof (induction n arbitrary: m c r)
  case 0
  then show ?case by simp
next
  case (Suc n)
  show ?case
  proof (cases "metricRegistry m")
    case None
    with Suc.prems show ?thesis
      by (auto simp: registry_get_def uncachedMetric.simps(2) split: if_splits)
  next
    case (Some mdef)
    show ?thesis
    proof (cases "kind mdef")
      case (FactMeasure factTable factColumn agg_opt grain_opt)
      with Suc.prems Some show ?thesis by (simp add: registry_get_def uncachedMetric.simps(2))
    next
      case (Expression factTable grain_opt expression)
      with Suc.prems Some show ?thesis by (simp add: registry_get_def uncachedMetric.simps(2))
    next
      case (Derived deps f)
      from Suc.prems Some Derived obtain x where
        x: "uncachedEach (\<lambda>dep. uncachedMetric n H dep db factTables metricRegistry c transforms)
              deps [] = Some x"
        by (cases "uncachedEach (\<lambda>dep. uncachedMetric n H dep db factTables metricRegistry c
              transforms) deps []") (simp_all add: registry_get_def uncachedMetric.simps(2))
      have "uncachedEach (\<lambda>dep. uncachedMetric (Suc n) H dep db factTables metricRegistry c
              transforms) deps [] = Some x"
        by (rule uncachedEach_mono[OF _ x]) (rule Suc.IH)
      with Suc.prems Some Derived x show ?thesis
        by (simp add: registry_get_def uncachedMetric.simps(2)[of "Suc n"] uncachedMetric.simps(2)[of n])
    next
      case (ContextTransform base t)
      show ?thesis
      proof (cases "map_of transforms t")
        case None
        with Suc.prems Some ContextTransform show ?thesis
          by (simp add: registry_get_def uncachedMetric.simps(2))
      next
        case some: (Some e)
        show ?thesis
        proof (cases e)
          case (NotFn x)
          with Suc.prems Some ContextTransform some show ?thesis
            by (simp add: registry_get_def uncachedMetric.simps(2))
        next
          case (TransformFn f)
          with Suc.prems Some ContextTransform some
          have "uncachedMetric n H base db factTables metricRegistry (f c) transforms = Some r"
            by (simp add: registry_get_def uncachedMetric.simps(2)[of n])
          then have "uncachedMetric (Suc n) H base db factTables metricRegistry (f c) transforms
                       = Some r"
            by (rule Suc.IH)
          with Some ContextTransform some TransformFn show ?thesis
            by (simp add: registry_get_def uncachedMetric.simps(2)[of "Suc n"])
        qed
      qed
    qed
  qed
qed

lemma uncachedMetric_mono:
  assumes "uncachedMetric n H m db factTables metricRegistry c transforms = Some r"
  shows "uncachedMetric (n + k) H m db factTables metricRegistry c transforms = Some r"
  using assms by (induction k) (simp_all add: uncachedMetric_Suc)

lemma uncachedMetric_det:
  assumes "uncachedMetric n H m db factTables metricRegistry c transforms = Some r"
    and "uncachedMetric n' H m db factTables metricRegistry c transforms = Some r'"
  shows "r = r'"
proof -
  have "uncachedMetric (n + n') H m db factTables metricRegistry c transforms = Some r"
    by (rule uncachedMetric_mono[OF assms(1)])
  moreover
  have "uncachedMetric (n' + n) H m db factTables metricRegistry c transforms = Some r'"
    by (rule uncachedMetric_mono[OF assms(2)])
  ultimately show ?thesis by (simp add: add.commute)
qed


lemma uncachedMetric_le:
  assumes "uncachedMetric n H m db factTables metricRegistry c transforms = Some r" "n \<le> n'"
  shows "uncachedMetric n' H m db factTables metricRegistry c transforms = Some r"
  using uncachedMetric_mono[OF assms(1), of "n' - n"] assms(2) by simp

lemma evaluateEach_sound:
  assumes step: "\<And>m st v st'. P st \<Longrightarrow> ev m st = Some (Inr (v, st')) \<Longrightarrow>
                   P st' \<and> (\<exists>k. pv k m = Some (Inr v))"
    and mono: "\<And>(k::nat) k' m r. pv k m = Some r \<Longrightarrow> k \<le> k' \<Longrightarrow> pv k' m = Some r"
    and "P st" "evaluateEach ev ms acc st = Some (Inr (acc', st'))"
  shows "P st' \<and> (\<exists>k. uncachedEach (pv k) ms acc = Some (Inr acc'))"
  using assms(3,4)
proof (induction ms arbitrary: acc st)
  case Nil
  then show ?case by simp
next
  case (Cons m ms)
  from Cons.prems(2) obtain v st1 where
    m: "ev m st = Some (Inr (v, st1))" and
    r: "evaluateEach ev ms (assign m v acc) st1 = Some (Inr (acc', st'))"
    by (auto split: option.splits sum.splits)
  from step[OF Cons.prems(1) m] obtain k1 where p1: "P st1" and k1: "pv k1 m = Some (Inr v)"
    by blast
  from Cons.IH[OF p1 r] obtain k2 where p': "P st'" and
    k2: "uncachedEach (pv k2) ms (assign m v acc) = Some (Inr acc')"
    by blast
  have "pv (max k1 k2) m = Some (Inr v)"
    by (rule mono[OF k1]) simp
  moreover have "uncachedEach (pv (max k1 k2)) ms (assign m v acc) = Some (Inr acc')"
    by (rule uncachedEach_mono[OF _ k2]) (rule mono, assumption, simp)
  ultimately have "uncachedEach (pv (max k1 k2)) (m # ms) acc = Some (Inr acc')"
    by simp
  with p' show ?case by blast
qed

lemma evaluateEach_complete:
  assumes step: "\<And>m st v. P st \<Longrightarrow> pv m = Some (Inr v) \<Longrightarrow>
                   \<exists>st'. ev m st = Some (Inr (v, st')) \<and> P st'"
    and "P st" "uncachedEach pv ms acc = Some (Inr acc')"
  shows "\<exists>st'. evaluateEach ev ms acc st = Some (Inr (acc', st')) \<and> P st'"
  using assms(2,3)
proof (induction ms arbitrary: acc st)
  case Nil
  then show ?case by simp
next
  case (Cons m ms)
  from Cons.prems(2) obtain v where
    m: "pv m = Some (Inr v)" and
    r: "uncachedEach pv ms (assign m v acc) = Some (Inr acc')"
    by (auto split: option.splits sum.splits)
  from step[OF Cons.prems(1) m] obtain st1 where
    e: "ev m st = Some (Inr (v, st1))" and p1: "P st1"
    by blast
  from Cons.IH[OF p1 r] e show ?case by simp
qed

lemma sound_cache_tick:
  "sound_cache H db factTables metricRegistry transforms S (tick st)
     = sound_cache H db factTables metricRegistry transforms S st"
  by (simp add: sound_cache_def tick_def)

lemma sound_cache_store:
  assumes "sound_cache H db factTables metricRegistry transforms S st" "c \<in> S"
    and "uncachedMetric n H m db factTables metricRegistry c transforms = Some (Inr v)"
  shows "sound_cache H db factTables metricRegistry transforms S
           (st\<lparr>cache := (cache st)(cacheKey H m c \<mapsto> v)\<rparr>)"
  using assms unfolding sound_cache_def by (auto split: if_splits)

lemma sound_cache_hit:
  assumes "sound_cache H db factTables metricRegistry transforms S st" "keys_apart H S"
    and "c \<in> S" "cache st (cacheKey H m c) = Some v"
  shows "\<exists>n. uncachedMetric n H m db factTables metricRegistry c transforms = Some (Inr v)"
proof -
  from assms(1,4) obtain m' c' n where
    "c' \<in> S" "cacheKey H m c = cacheKey H m' c'"
    "uncachedMetric n H m' db factTables metricRegistry c' transforms = Some (Inr v)"
    unfolding sound_cache_def by blast
  moreover from this assms(2,3) have "m = m' \<and> c = c'"
    unfolding keys_apart_def by blast
  ultimately show ?thesis by blast
qed

lemma evaluateMetric_sound:
  assumes apart: "keys_apart H S" and closed: "closed_under transforms S"
  shows "sound_cache H db factTables metricRegistry transforms S st \<Longrightarrow> c \<in> S \<Longrightarrow>
         evaluateMetric n H m db factTables metricRegistry c transforms st = Some (Inr (v, st')) \<Longrightarrow>
         sound_cache H db factTables metricRegistry transforms S st' \<and>
         (\<exists>k. uncachedMetric k H m db factTables metricRegistry c transforms = Some (Inr v))"
proof (induction n arbitrary: m c st v st')
  case 0
  then show ?case by simp
next
  case (Suc n)
  note snd = Suc.prems(1) and cS = Suc.prems(2) and ev = Suc.prems(3)
  show ?case
  proof (cases "cache st (cacheKey H m c)")
    case (Some w)
    with ev have "w = v" "st' = st" by (simp_all add: evaluateMetric_hit)
    with Some snd sound_cache_hit[OF snd apart cS] show ?thesis by blast
  next
    case None
    show ?thesis
    proof (cases "metricRegistry m")
      case no: None
      with None ev show ?thesis by (simp add: evaluateMetric_no_entry)
    next
      case (Some mdef)
      note unfold = evaluateMetric_miss[where metricRegistry = metricRegistry and m = m
          and st = st and H = H and c = c and mdef = mdef and n = n and db = db
          and factTables = factTables and transforms = transforms, OF None Some]
      show ?thesis
      proof (cases "kind mdef")
        case (FactMeasure factTable factColumn agg_opt grain_opt)
        from ev obtain x where
          x: "factMeasureValue H db factTables c factTable factColumn agg_opt grain_opt = Inr x"
          and v: "v = Some x"
          and st': "st' = (tick st)\<lparr>cache := (cache (tick st))(cacheKey H m c \<mapsto> v)\<rparr>"
          unfolding unfold FactMeasure by (auto split: sum.splits)
        have u: "uncachedMetric (Suc 0) H m db factTables metricRegistry c transforms
                   = Some (Inr v)"
          by (simp add: registry_get_def uncachedMetric.simps(2) Some FactMeasure x v)
        have "sound_cache H db factTables metricRegistry transforms S (tick st)"
          using snd by (simp add: sound_cache_tick)
        from sound_cache_store[OF this cS u] u st' show ?thesis by blast
      next
        case (Expression factTable grain_opt expression)
        from ev have
          x: "expressionValue H db factTables c factTable grain_opt expression = Inr v"
          and st': "st' = (tick st)\<lparr>cache := (cache (tick st))(cacheKey H m c \<mapsto> v)\<rparr>"
          unfolding unfold Expression by (auto split: sum.splits)
        have u: "uncachedMetric (Suc 0) H m db factTables metricRegistry c transforms
                   = Some (Inr v)"
          by (simp add: registry_get_def uncachedMetric.simps(2) Some Expression x)
        have "sound_cache H db factTables metricRegistry transforms S (tick st)"
          using snd by (simp add: sound_cache_tick)
        from sound_cache_store[OF this cS u] u st' show ?thesis by blast
      next
        case (Derived deps f)
        from ev obtain depValues st1 where
          e: "evaluateEach (\<lambda>dep s. evaluateMetric n H dep db factTables metricRegistry c
                transforms s) deps [] st = Some (Inr (depValues, st1))"
          and v: "v = f depValues db c"
          and st': "st' = (tick st1)\<lparr>cache := (cache (tick st1))(cacheKey H m c \<mapsto> v)\<rparr>"
          unfolding unfold Derived by (auto split: option.splits sum.splits)
        have "sound_cache H db factTables metricRegistry transforms S st1 \<and>
              (\<exists>k. uncachedEach (\<lambda>dep. uncachedMetric k H dep db factTables metricRegistry c
                     transforms) deps [] = Some (Inr depValues))"
        proof (rule evaluateEach_sound[where
              P = "sound_cache H db factTables metricRegistry transforms S"
              and pv = "\<lambda>k dep. uncachedMetric k H dep db factTables metricRegistry c transforms",
              OF _ _ snd e])
          fix dep s w s'
          assume "sound_cache H db factTables metricRegistry transforms S s"
            and "evaluateMetric n H dep db factTables metricRegistry c transforms s
                   = Some (Inr (w, s'))"
          then show "sound_cache H db factTables metricRegistry transforms S s' \<and>
            (\<exists>k. uncachedMetric k H dep db factTables metricRegistry c transforms = Some (Inr w))"
            using Suc.IH cS by blast
        next
          fix k k' :: nat and dep r
          assume "uncachedMetric k H dep db factTables metricRegistry c transforms = Some r"
            and "k \<le> k'"
          then show "uncachedMetric k' H dep db factTables metricRegistry c transforms = Some r"
            by (rule uncachedMetric_le)
        qed
        then obtain k where s1: "sound_cache H db factTables metricRegistry transforms S st1"
          and k: "uncachedEach (\<lambda>dep. uncachedMetric k H dep db factTables metricRegistry c
                     transforms) deps [] = Some (Inr depValues)"
          by blast
        have u: "uncachedMetric (Suc k) H m db factTables metricRegistry c transforms
                   = Some (Inr v)"
          by (simp add: registry_get_def uncachedMetric.simps(2) Some Derived k v)
        have "sound_cache H db factTables metricRegistry transforms S (tick st1)"
          using s1 by (simp add: sound_cache_tick)
        from sound_cache_store[OF this cS u] u st' show ?thesis by blast
      next
        case (ContextTransform base t)
        from ev obtain g st1 where
          t: "map_of transforms t = Some (TransformFn g)"
          and e: "evaluateMetric n H base db factTables metricRegistry (g c) transforms st
                    = Some (Inr (v, st1))"
          and st': "st' = st1\<lparr>cache := (cache st1)(cacheKey H m c \<mapsto> v)\<rparr>"
          unfolding unfold ContextTransform
          by (auto split: option.splits sum.splits TransformEntry.splits if_splits)
        have "g c \<in> S" using closed t cS unfolding closed_under_def by blast
        from Suc.IH[OF snd this e] obtain k where
          s1: "sound_cache H db factTables metricRegistry transforms S st1"
          and k: "uncachedMetric k H base db factTables metricRegistry (g c) transforms
                    = Some (Inr v)"
          by blast
        have u: "uncachedMetric (Suc k) H m db factTables metricRegistry c transforms
                   = Some (Inr v)"
          by (simp add: registry_get_def uncachedMetric.simps(2) Some ContextTransform t k)
        from sound_cache_store[OF s1 cS u] u st' show ?thesis by blast
      qed
    qed
  qed
qed

lemma evaluateMetric_complete:
  assumes apart: "keys_apart H S" and closed: "closed_under transforms S"
  shows "sound_cache H db factTables metricRegistry transforms S st \<Longrightarrow> c \<in> S \<Longrightarrow>
         uncachedMetric n H m db factTables metricRegistry c transforms = Some (Inr v) \<Longrightarrow>
         \<exists>st'. evaluateMetric n H m db factTables metricRegistry c transforms st
                 = Some (Inr (v, st')) \<and>
               sound_cache H db factTables metricRegistry transforms S st'"
proof (induction n arbitrary: m c st v)
  case 0
  then show ?case by simp
next
  case (Suc n)
  note snd = Suc.prems(1) and cS = Suc.prems(2) and un = Suc.prems(3)
  show ?case
  proof (cases "cache st (cacheKey H m c)")
    case (Some w)
    from sound_cache_hit[OF snd apart cS Some] obtain k where
      "uncachedMetric k H m db factTables metricRegistry c transforms = Some (Inr w)"
      by blast
    from uncachedMetric_det[OF this un] have "w = v" by simp
    with Some snd show ?thesis by (simp add: evaluateMetric_hit)
  next
    case None
    show ?thesis
    proof (cases "metricRegistry m")
      case no: None
      with un show ?thesis
        by (auto simp: registry_get_def uncachedMetric.simps(2) split: if_splits)
    next
      case (Some mdef)
      note unfold = evaluateMetric_miss[where metricRegistry = metricRegistry and m = m
          and st = st and H = H and c = c and mdef = mdef and n = n and db = db
          and factTables = factTables and transforms = transforms, OF None Some]
      show ?thesis
      proof (cases "kind mdef")
        case (FactMeasure factTable factColumn agg_opt grain_opt)
        from un obtain x where
          x: "factMeasureValue H db factTables c factTable factColumn agg_opt grain_opt = Inr x"
          and v: "v = Some x"
          by (auto simp: registry_get_def uncachedMetric.simps(2) Some FactMeasure split: sum.splits)
        have "sound_cache H db factTables metricRegistry transforms S (tick st)"
          using snd by (simp add: sound_cache_tick)
        from sound_cache_store[OF this cS un] show ?thesis
          unfolding unfold FactMeasure by (simp add: x v)
      next
        case (Expression factTable grain_opt expression)
        from un have
          x: "expressionValue H db factTables c factTable grain_opt expression = Inr v"
          by (auto simp: registry_get_def uncachedMetric.simps(2) Some Expression split: sum.splits)
        have "sound_cache H db factTables metricRegistry transforms S (tick st)"
          using snd by (simp add: sound_cache_tick)
        from sound_cache_store[OF this cS un] show ?thesis
          unfolding unfold Expression by (simp add: x)
      next
        case (Derived deps f)
        from un obtain depValues where
          e: "uncachedEach (\<lambda>dep. uncachedMetric n H dep db factTables metricRegistry c
                transforms) deps [] = Some (Inr depValues)"
          and v: "v = f depValues db c"
          by (auto simp: registry_get_def uncachedMetric.simps(2) Some Derived split: option.splits sum.splits)
        have "\<exists>st1. evaluateEach (\<lambda>dep s. evaluateMetric n H dep db factTables metricRegistry c
                transforms s) deps [] st = Some (Inr (depValues, st1)) \<and>
              sound_cache H db factTables metricRegistry transforms S st1"
        proof (rule evaluateEach_complete[where
              P = "sound_cache H db factTables metricRegistry transforms S"
              and pv = "\<lambda>dep. uncachedMetric n H dep db factTables metricRegistry c transforms",
              OF _ snd e])
          fix dep s w
          assume "sound_cache H db factTables metricRegistry transforms S s"
            and "uncachedMetric n H dep db factTables metricRegistry c transforms
                   = Some (Inr w)"
          then show "\<exists>s'. evaluateMetric n H dep db factTables metricRegistry c transforms s
                         = Some (Inr (w, s')) \<and>
                       sound_cache H db factTables metricRegistry transforms S s'"
            using Suc.IH cS by blast
        qed
        then obtain st1 where
          e1: "evaluateEach (\<lambda>dep s. evaluateMetric n H dep db factTables metricRegistry c
                transforms s) deps [] st = Some (Inr (depValues, st1))"
          and s1: "sound_cache H db factTables metricRegistry transforms S st1"
          by blast
        have "sound_cache H db factTables metricRegistry transforms S (tick st1)"
          using s1 by (simp add: sound_cache_tick)
        from sound_cache_store[OF this cS un] show ?thesis
          unfolding unfold Derived by (simp add: e1 v)
      next
        case (ContextTransform base t)
        from un obtain g where
          t: "map_of transforms t = Some (TransformFn g)"
          and e: "uncachedMetric n H base db factTables metricRegistry (g c) transforms
                    = Some (Inr v)"
          by (auto simp: registry_get_def uncachedMetric.simps(2) Some ContextTransform
              split: option.splits TransformEntry.splits if_splits)
        have "g c \<in> S" using closed t cS unfolding closed_under_def by blast
        from Suc.IH[OF snd this e] obtain st1 where
          e1: "evaluateMetric n H base db factTables metricRegistry (g c) transforms st
                 = Some (Inr (v, st1))"
          and s1: "sound_cache H db factTables metricRegistry transforms S st1"
          by blast
        from sound_cache_store[OF s1 cS un] show ?thesis
          unfolding unfold ContextTransform by (simp add: t e1)
      qed
    qed
  qed
qed

lemma uncachedEach_other:
  "uncachedEach ev ms acc = Some (Inr res) \<Longrightarrow> x \<notin> set ms \<Longrightarrow> map_of res x = map_of acc x"
  by (induction ms arbitrary: acc) (auto simp: map_of_assign split: option.splits sum.splits)

lemma uncachedEach_value:
  "uncachedEach ev ms acc = Some (Inr res) \<Longrightarrow> m \<in> set ms \<Longrightarrow>
   \<exists>v. map_of res m = Some v \<and> ev m = Some (Inr v)"
proof (induction ms arbitrary: acc)
  case Nil
  then show ?case by simp
next
  case (Cons x xs)
  from Cons.prems(1) obtain vx where
    x: "ev x = Some (Inr vx)" and r: "uncachedEach ev xs (assign x vx acc) = Some (Inr res)"
    by (auto split: option.splits sum.splits)
  show ?case
  proof (cases "m \<in> set xs")
    case True
    from Cons.IH[OF r True] show ?thesis .
  next
    case False
    with Cons.prems(2) have mx: "m = x" by simp
    from uncachedEach_other[OF r] False mx have "map_of res x = Some vx"
      by (simp add: map_of_assign)
    with x mx show ?thesis by simp
  qed
qed

lemma sound_cache_newState: "sound_cache H db factTables metricRegistry transforms S newState"
  by (simp add: sound_cache_def)

text \<open>
  C10, as the code has it. The cache is transparent over a set of contexts that contains
  the given context, is closed under the registered transforms, and on which the cache
  key tells metrics and contexts apart: for every list of metric names, each value in the
  map \<^verbatim>\<open>evaluateMetrics\<close> returns under its one shared cache is the value a call of
  \<^verbatim>\<open>evaluateMetric\<close> for that name and context with a new cache returns (such a call
  returns, and no such call returns another value).
\<close>

theorem cache_transparent:
  assumes "keys_apart H S" "closed_under transforms S" "c \<in> S"
    and "evaluateMetrics n H metricNames db factTables metricRegistry c transforms
           = Some (Inr results)"
    and "m \<in> set metricNames"
  shows "\<exists>v. map_of results m = Some v \<and>
           (\<exists>k st'. evaluateMetric k H m db factTables metricRegistry c transforms newState
                      = Some (Inr (v, st'))) \<and>
           (\<forall>k w st'. evaluateMetric k H m db factTables metricRegistry c transforms newState
                        = Some (Inr (w, st')) \<longrightarrow> w = v)"
proof -
  from assms(4) obtain st where
    e: "evaluateEach (\<lambda>x s. evaluateMetric n H x db factTables metricRegistry c transforms s)
          metricNames [] newState = Some (Inr (results, st))"
    by (auto simp: evaluateMetrics_def split: option.splits sum.splits)
  have "sound_cache H db factTables metricRegistry transforms S st \<and>
        (\<exists>k. uncachedEach (\<lambda>x. uncachedMetric k H x db factTables metricRegistry c transforms)
               metricNames [] = Some (Inr results))"
  proof (rule evaluateEach_sound[where
        P = "sound_cache H db factTables metricRegistry transforms S"
        and pv = "\<lambda>k x. uncachedMetric k H x db factTables metricRegistry c transforms",
        OF _ _ sound_cache_newState e])
    fix x s w s'
    assume "sound_cache H db factTables metricRegistry transforms S s"
      and "evaluateMetric n H x db factTables metricRegistry c transforms s = Some (Inr (w, s'))"
    then show "sound_cache H db factTables metricRegistry transforms S s' \<and>
      (\<exists>k. uncachedMetric k H x db factTables metricRegistry c transforms = Some (Inr w))"
      using evaluateMetric_sound[OF assms(1) assms(2)] assms(3) by blast
  next
    fix k k' :: nat and x r
    assume "uncachedMetric k H x db factTables metricRegistry c transforms = Some r" "k \<le> k'"
    then show "uncachedMetric k' H x db factTables metricRegistry c transforms = Some r"
      by (rule uncachedMetric_le)
  qed
  then obtain k where
    k: "uncachedEach (\<lambda>x. uncachedMetric k H x db factTables metricRegistry c transforms)
               metricNames [] = Some (Inr results)"
    by blast
  from uncachedEach_value[OF k assms(5)] obtain v where
    v: "map_of results m = Some v"
    and u: "uncachedMetric k H m db factTables metricRegistry c transforms = Some (Inr v)"
    by blast
  from evaluateMetric_complete[OF assms(1) assms(2) sound_cache_newState assms(3) u]
  have ex: "\<exists>k st'. evaluateMetric k H m db factTables metricRegistry c transforms newState
                      = Some (Inr (v, st'))"
    by blast
  have "w = v"
    if "evaluateMetric k' H m db factTables metricRegistry c transforms newState
          = Some (Inr (w, st'))" for k' w st'
  proof -
    from evaluateMetric_sound[OF assms(1) assms(2) sound_cache_newState assms(3) that]
    obtain j where "uncachedMetric j H m db factTables metricRegistry c transforms
                      = Some (Inr w)"
      by blast
    from uncachedMetric_det[OF this u] show ?thesis by simp
  qed
  with v ex show ?thesis by blast
qed

lemma append_eq_rev: "m @ s = m' @ s' \<Longrightarrow> rev s @ rev m = rev s' @ rev m'"
  by (metis rev_append)

text \<open>
  The theorem on \<^verbatim>\<open>salesAmountYTD\<close> and its base \<^verbatim>\<open>totalSalesAmount\<close> in February 2025,
  over the given context and the two contexts the year-to-date transform makes of it in
  turn, whose JSON texts differ: the map holds 2400 and 1400, and so do the calls with a
  new cache.
\<close>

theorem cache_transparent_witness:
  "evaluateMetrics 2 H0 [''salesAmountYTD'', ''totalSalesAmount''] exampleDb exampleFactTables
      exampleMetrics [(''year'', Prim (JNum (Num 2025))), (''month'', Prim (JNum (Num 2)))]
      exampleTransforms
     = Some (Inr [(''salesAmountYTD'', Some (Num 2400)), (''totalSalesAmount'', Some (Num 1400))]) \<and>
   (\<exists>k st'. evaluateMetric k H0 ''totalSalesAmount'' exampleDb exampleFactTables exampleMetrics
       [(''year'', Prim (JNum (Num 2025))), (''month'', Prim (JNum (Num 2)))] exampleTransforms
       newState = Some (Inr (Some (Num 1400), st'))) \<and>
   (\<exists>k st'. evaluateMetric k H0 ''salesAmountYTD'' exampleDb exampleFactTables exampleMetrics
       [(''year'', Prim (JNum (Num 2025))), (''month'', Prim (JNum (Num 2)))] exampleTransforms
       newState = Some (Inr (Some (Num 2400), st')))"
proof -
  let ?c0 = "[(''year'', Prim (JNum (Num 2025))), (''month'', Prim (JNum (Num 2)))]"
  let ?c1 = "[(''year'', Prim (JNum (Num 2025))), (''month'', Range [(''lte'', JNum (Num 2))])]"
  let ?c2 = "[(''year'', Prim (JNum (Num 2025))), (''month'', Range [(''lte'', JNum NaN)])]"
  let ?S = "{?c0, ?c1, ?c2}"
  have y0: "ytd H0 ?c0 = ?c1" by (simp add: ytd_def)
  have y1: "ytd H0 ?c1 = ?c2" by (simp add: ytd_def)
  have y2: "ytd H0 ?c2 = ?c2" by (simp add: ytd_def)
  have j0: "JSON_stringify H0 ?c0 = ''{\"year\":2025,\"month\":2}''"
    by (simp add: json_text show_rat_2025 show_rat_2)
  have j1: "JSON_stringify H0 ?c1 = ''{\"year\":2025,\"month\":{\"lte\":2}}''"
    by (simp add: json_text show_rat_2025 show_rat_2)
  have j2: "JSON_stringify H0 ?c2 = ''{\"year\":2025,\"month\":{\"lte\":null}}''"
    by (simp add: json_text show_rat_2025)
  have ne01: "cacheKey H0 m ?c0 \<noteq> cacheKey H0 m' ?c1" for m m'
  proof
    assume "cacheKey H0 m ?c0 = cacheKey H0 m' ?c1"
    then have "m @ ''::{\"year\":2025,\"month\":2}''
             = m' @ ''::{\"year\":2025,\"month\":{\"lte\":2}}''"
      by (simp add: cacheKey_def j0 j1)
    from append_eq_rev[OF this] show False by simp
  qed
  have ne02: "cacheKey H0 m ?c0 \<noteq> cacheKey H0 m' ?c2" for m m'
  proof
    assume "cacheKey H0 m ?c0 = cacheKey H0 m' ?c2"
    then have "m @ ''::{\"year\":2025,\"month\":2}''
             = m' @ ''::{\"year\":2025,\"month\":{\"lte\":null}}''"
      by (simp add: cacheKey_def j0 j2)
    from append_eq_rev[OF this] show False by simp
  qed
  have ne12: "cacheKey H0 m ?c1 \<noteq> cacheKey H0 m' ?c2" for m m'
  proof
    assume "cacheKey H0 m ?c1 = cacheKey H0 m' ?c2"
    then have "m @ ''::{\"year\":2025,\"month\":{\"lte\":2}}''
             = m' @ ''::{\"year\":2025,\"month\":{\"lte\":null}}''"
      by (simp add: cacheKey_def j1 j2)
    from append_eq_rev[OF this] show False by simp
  qed
  have eq: "cacheKey H0 m c = cacheKey H0 m' c \<Longrightarrow> m = m'" for m m' c
    by (simp add: cacheKey_def)
  have apart: "keys_apart H0 ?S"
    unfolding keys_apart_def
  proof (intro allI impI)
    fix m c m' c'
    assume h: "c \<in> ?S \<and> c' \<in> ?S \<and> cacheKey H0 m c = cacheKey H0 m' c'"
    then have k: "cacheKey H0 m c = cacheKey H0 m' c'" by simp
    from h consider "c = c'" | "c = ?c0" "c' = ?c1" | "c = ?c1" "c' = ?c0"
      | "c = ?c0" "c' = ?c2" | "c = ?c2" "c' = ?c0"
      | "c = ?c1" "c' = ?c2" | "c = ?c2" "c' = ?c1"
      by blast
    then show "m = m' \<and> c = c'"
    proof cases
      case 1
      with k eq[of m c' m'] show ?thesis by simp
    next
      case 2
      with k ne01[of m m'] show ?thesis by simp
    next
      case 3
      with k ne01[of m' m] show ?thesis by simp
    next
      case 4
      with k ne02[of m m'] show ?thesis by simp
    next
      case 5
      with k ne02[of m' m] show ?thesis by simp
    next
      case 6
      with k ne12[of m m'] show ?thesis by simp
    next
      case 7
      with k ne12[of m' m] show ?thesis by simp
    qed
  qed
  have closed: "closed_under exampleTransforms ?S"
    unfolding closed_under_def exampleTransforms_def
  proof (intro allI impI)
    fix t f c
    assume h: "map_of [(''ytd'', TransformFn (ytd H0))] t = Some (TransformFn f) \<and> c \<in> ?S"
    then have f: "f = ytd H0" by (simp split: if_splits)
    from h consider "c = ?c0" | "c = ?c1" | "c = ?c2" by blast
    then show "f c \<in> ?S"
    proof cases
      case 1
      then show ?thesis unfolding f by (simp only: y0) simp
    next
      case 2
      then show ?thesis unfolding f by (simp only: y1) simp
    next
      case 3
      then show ?thesis unfolding f by (simp only: y2) simp
    qed
  qed
  have kA: "cacheKey H0 ''totalSalesAmount'' ?c0 \<noteq> cacheKey H0 ''salesAmountYTD'' ?c0"
    using eq[of "''totalSalesAmount''" ?c0 "''salesAmountYTD''"] by auto
  have kB: "cacheKey H0 ''totalSalesAmount'' ?c0 \<noteq> cacheKey H0 ''totalSalesAmount'' ?c1"
    by (rule ne01)
  have r1: "exampleMetrics ''salesAmountYTD''
              = Some \<lparr>format = Some ''currency'',
                      kind = ContextTransform ''totalSalesAmount'' ''ytd''\<rparr>"
    by (simp add: exampleMetrics_def)
  have r2: "map_of exampleTransforms ''ytd'' = Some (TransformFn (ytd H0))"
    by (simp add: exampleTransforms_def)
  have r3: "exampleMetrics ''totalSalesAmount''
              = Some \<lparr>format = Some ''currency'',
                      kind = FactMeasure ''sales'' ''amount'' None None\<rparr>"
    by (simp add: exampleMetrics_def)
  have f1: "factMeasureValue H0 exampleDb exampleFactTables ?c1 ''sales'' ''amount'' None None
             = Inr (Num 2400)"
    by (simp add: exampleDb_def exampleFactTables_def salesRows_def januaryNA_def februaryNA_def
        februaryEU_def fact_eval has_key_def js_gt_def)
  have f0: "factMeasureValue H0 exampleDb exampleFactTables ?c0 ''sales'' ''amount'' None None
             = Inr (Num 1400)"
    by (simp add: exampleDb_def exampleFactTables_def salesRows_def januaryNA_def februaryNA_def
        februaryEU_def fact_eval)
  have a: "evaluateMetrics 2 H0 [''salesAmountYTD'', ''totalSalesAmount''] exampleDb
      exampleFactTables exampleMetrics ?c0 exampleTransforms
     = Some (Inr [(''salesAmountYTD'', Some (Num 2400)), (''totalSalesAmount'', Some (Num 1400))])"
    using kA kB
    by (simp add: evaluateMetrics_def numeral_2_eq_2 evaluateMetric_miss r1 r2 r3 y0 f0 f1
        tick_def newState_def)
  have c0S: "?c0 \<in> ?S" by simp
  note t = cache_transparent[OF apart closed c0S a]
  from t[of "''totalSalesAmount''"] t[of "''salesAmountYTD''"] a show ?thesis
    by auto
qed

text \<open>
  C10 as stated fails: \<^verbatim>\<open>{month: {lte: 1}}\<close> and the context the transform \<^verbatim>\<open>open\<close>
  makes of it, \<^verbatim>\<open>{month: {from: undefined, lte: 1}}\<close>, have the same JSON text and so
  the same cache key, but the second filters nothing (its \<^verbatim>\<open>from\<close> property selects
  the branch that ignores \<^verbatim>\<open>lte\<close>). After \<^verbatim>\<open>openSales\<close>, \<^verbatim>\<open>evaluateMetrics\<close> returns
  for \<^verbatim>\<open>totalSalesAmount\<close> the cached 2400, where the call with a new cache returns
  the total of January, 1000.
\<close>

theorem cache_transparent_counterexample:
  "evaluateMetrics 2 H0 [''openSales'', ''totalSalesAmount''] exampleDb exampleFactTables
      collidingMetrics [(''month'', Range [(''lte'', JNum (Num 1))])] collidingTransforms
     = Some (Inr [(''openSales'', Some (Num 2400)), (''totalSalesAmount'', Some (Num 2400))]) \<and>
   result_of (evaluateMetric 2 H0 ''totalSalesAmount'' exampleDb exampleFactTables
      collidingMetrics [(''month'', Range [(''lte'', JNum (Num 1))])] collidingTransforms
      newState)
     = Some (Inr (Some (Num 1000)))"
proof -
  let ?c = "[(''month'', Range [(''lte'', JNum (Num 1))])]"
  have k: "cacheKey H0 ''totalSalesAmount'' (openMonth ?c) = cacheKey H0 ''totalSalesAmount'' ?c"
    by (simp add: openMonth_def json_text show_rat_1)
  have t: "evaluateMetric (Suc 0) H0 ''totalSalesAmount'' exampleDb exampleFactTables
             collidingMetrics (openMonth ?c) collidingTransforms newState
           = Some (Inr (Some (Num 2400),
               \<lparr>cache = [cacheKey H0 ''totalSalesAmount'' ?c \<mapsto> Some (Num 2400)],
                invocations = 1\<rparr>))"
    unfolding k[symmetric]
    by (simp add: evaluateMetric_miss collidingMetrics_def example_data fact_eval has_key_def
        openMonth_def newState_def tick_def)
  have kk: "cacheKey H0 ''openSales'' ?c \<noteq> cacheKey H0 ''totalSalesAmount'' ?c"
    by (simp add: cacheKey_def)
  have r1: "collidingMetrics ''openSales''
              = Some \<lparr>format = Some ''currency'',
                      kind = ContextTransform ''totalSalesAmount'' ''open''\<rparr>"
    by (simp add: collidingMetrics_def)
  have r2: "map_of collidingTransforms ''open'' = Some (TransformFn openMonth)"
    by (simp add: collidingTransforms_def)
  have a: "evaluateMetrics 2 H0 [''openSales'', ''totalSalesAmount''] exampleDb exampleFactTables
      collidingMetrics ?c collidingTransforms
     = Some (Inr [(''openSales'', Some (Num 2400)), (''totalSalesAmount'', Some (Num 2400))])"
    using kk
    by (simp add: evaluateMetrics_def numeral_2_eq_2 evaluateMetric_miss evaluateMetric_hit t
        r1 r2)
  have b: "result_of (evaluateMetric 2 H0 ''totalSalesAmount'' exampleDb exampleFactTables
      collidingMetrics ?c collidingTransforms newState) = Some (Inr (Some (Num 1000)))"
    by (simp add: numeral_2_eq_2 evaluateMetric_miss collidingMetrics_def example_data fact_eval
        has_key_def js_gt_def result_of_def)
  from a b show ?thesis by simp
qed

end
